theory Spec2Isabelle
  imports Complex_Main "HOL-Library.AList" "HOL-Library.Log_Nat"
begin

section \<open>The incremental workspace crawler, its hash cache and the progress manager\<close>

text \<open>
  A shallow embedding of three TypeScript modules of the extension: the file hash cache
  (\<open>readFileHashCache\<close>, \<open>writeFileHashCache\<close>, \<open>calculateFileHash\<close>,
  \<open>hasFileChanged\<close>, \<open>updateFileHash\<close>, \<open>cleanupFileHashCache\<close>), the
  crawler (\<open>crawlLocalFilesAsync\<close> with its helper \<open>collectFilePaths\<close>, and its
  caller \<open>FetchRepoNode.exec\<close>) and the \<open>ProgressManager\<close> class.

  Conventions of the embedding.
  \<^item> A path is the list of its segments, in normalised form: \<open>path.join(p, item)\<close> is
    \<open>p @ [item]\<close>, and \<open>path.relative(root, p)\<close> drops the segments of \<open>root\<close>.
  \<^item> The file system seen by one crawl is a finite tree; \<open>fs.readdir\<close>,
    \<open>fs.stat\<close> and \<open>fs.readFile\<close> read it, and every \<open>fs.readFile\<close> on it is
    logged in the field \<open>reads\<close> of the world.
  \<^item> A JavaScript object used as a dictionary is an association list in insertion
    order; \<open>obj[k] = v\<close> is \<open>AList.update\<close>, \<open>obj[k]\<close> is \<open>map_of\<close>.
  \<^item> An exception is a value \<open>Inl e\<close>; an \<open>async\<close> function that touches the world
    returns its result together with the new world.
  \<^item> Library functions that are not code of the extension (\<open>JSON.parse\<close>,
    \<open>JSON.stringify\<close>, the MD5 digest, \<open>minimatch\<close>, the \<open>ignore\<close> package) are
    parameters, collected in the record \<open>env\<close>.
  \<^item> JavaScript numbers are modelled by exact numbers (\<open>int\<close>, \<open>nat\<close>, \<open>real\<close>):
    rounding of floating point arithmetic is not modelled.
  \<^item> Logger calls have no effect on any result and are left out.
\<close>

subsection \<open>Errors, paths and the file system\<close>

datatype error =
    IOError
  | SyntaxError
  | TypeError
  | DirectoryDoesNotExist
  | NoFilesFound
  | OperationCancelled

type_synonym path = "string list"

text \<open>
  What \<open>fs.stat\<close> and \<open>fs.readdir\<close> can tell about an entry: a regular file with its
  size and its content (\<open>None\<close> when \<open>fs.readFile\<close> fails on it), a directory with
  its entries, a directory whose \<open>fs.readdir\<close> fails, an entry that is neither a file
  nor a directory, and an entry on which \<open>fs.stat\<close> itself throws.
\<close>

datatype fsnode =
    RegularFile nat "string option"
  | Directory "(string \<times> fsnode) list"
  | UnreadableDirectory
  | OtherEntry
  | Unstatable

fun isDirectory :: "fsnode \<Rightarrow> bool" where
  "isDirectory (Directory items) = True"
| "isDirectory UnreadableDirectory = True"
| "isDirectory n = False"

fun isFile :: "fsnode \<Rightarrow> bool" where
  "isFile (RegularFile sz c) = True"
| "isFile n = False"

text \<open>\<open>stats.size\<close>; the size of an entry that is not a regular file is not modelled.\<close>

fun statSize :: "fsnode \<Rightarrow> nat" where
  "statSize (RegularFile sz c) = sz"
| "statSize n = 0"

fun node_at :: "fsnode \<Rightarrow> path \<Rightarrow> fsnode option" where
  "node_at n [] = Some n"
| "node_at n (s # ss) =
     (case n of
        Directory items \<Rightarrow>
          (case map_of items s of None \<Rightarrow> None | Some m \<Rightarrow> node_at m ss)
      | _ \<Rightarrow> None)"

subsection \<open>The hash cache document and the world\<close>

text \<open>
  \<^verbatim>\<open>
  export interface FileHashCache {
      [workspaceId: string]: {
          [filePath: string]: { hash: string; timestamp: number; }
      };
  }
  \<close>
\<close>

record HashEntry =
  hash :: string
  timestamp :: int

type_synonym WorkspaceCache = "(path \<times> HashEntry) list"

type_synonym FileHashCache = "(string \<times> WorkspaceCache) list"

text \<open>
  \<open>JSON.parse\<close> returns what the text denotes, and \<open>readFileHashCache\<close> returns that
  value unchecked, so the value loaded need not be a document of the declared type. Of
  the values that are not, the model has \<open>null\<close>, on which a property access throws a
  \<open>TypeError\<close>. The other values that a JSON text can denote (numbers, strings,
  booleans, arrays, and objects of another shape) are not modelled.
\<close>

datatype parsed = ParsedNull | Document FileHashCache

text \<open>The file at \<open>fileHashCachePath\<close>: absent, present but unreadable, or its text.\<close>

datatype cache_file = NoFile | Unreadable | Contents string

record world =
  fsRoot :: fsnode
  reads :: "path list"
  fileHashCachePath :: string
  cacheFile :: cache_file
  cacheWritable :: bool
  now :: int

record env =
  JSON_parse :: "string \<Rightarrow> error + parsed"
  JSON_stringify :: "FileHashCache \<Rightarrow> string"
  md5 :: "string \<Rightarrow> string"
  ignore_add :: "string list \<Rightarrow> path \<Rightarrow> bool"
  minimatch :: "path \<Rightarrow> string \<Rightarrow> bool"

text \<open>\<open>try { body } catch (error) { handler }\<close>\<close>

definition try_catch :: "error + 'a \<Rightarrow> (error \<Rightarrow> error + 'a) \<Rightarrow> error + 'a" where
  "try_catch body handler = (case body of Inl e \<Rightarrow> handler e | Inr v \<Rightarrow> Inr v)"

text \<open>\<open>fs.readFile(p, "utf-8")\<close> on the crawled tree: logged, and failing on anything
  but a readable regular file.\<close>

definition fs_readFile :: "path \<Rightarrow> world \<Rightarrow> (error + string) \<times> world" where
  "fs_readFile p w =
     ((case node_at (fsRoot w) p of
         Some (RegularFile sz (Some data)) \<Rightarrow> Inr data
       | _ \<Rightarrow> Inl IOError),
      w\<lparr>reads := reads w @ [p]\<rparr>)"

text \<open>\<open>String.prototype.trim\<close>, for the ASCII white space and line terminators.\<close>

definition isWhiteSpace :: "char \<Rightarrow> bool" where
  "isWhiteSpace c = (c \<in> set [CHR '' '', CHR 0x09, CHR 0x0A, CHR 0x0B, CHR 0x0C, CHR 0x0D])"

definition trim :: "string \<Rightarrow> string" where
  "trim s = rev (dropWhile isWhiteSpace (rev (dropWhile isWhiteSpace s)))"

subsection \<open>The file hash cache\<close>

text \<open>
  \<^verbatim>\<open>
  export async function readFileHashCache(): Promise<FileHashCache> {
      if (!fileHashCachePath) { return {}; }
      try {
          try { await fs.access(fileHashCachePath); } catch { return {}; }
          const data = await fs.readFile(fileHashCachePath, "utf-8");
          if (!data.trim()) { return {}; }
          return JSON.parse(data);
      } catch (error) { return {}; }
  }
  \<close>
\<close>

definition cache_access :: "world \<Rightarrow> error + unit" where
  "cache_access w = (case cacheFile w of NoFile \<Rightarrow> Inl IOError | _ \<Rightarrow> Inr ())"

definition cache_readFile :: "world \<Rightarrow> error + string" where
  "cache_readFile w = (case cacheFile w of Contents data \<Rightarrow> Inr data | _ \<Rightarrow> Inl IOError)"

definition readFileHashCache :: "env \<Rightarrow> world \<Rightarrow> error + parsed" where
  "readFileHashCache E w =
     (if fileHashCachePath w = [] then Inr (Document [])
      else
        try_catch
          (case cache_access w of
             Inl e \<Rightarrow> Inr (Document [])
           | Inr u \<Rightarrow>
               (case cache_readFile w of
                  Inl e \<Rightarrow> Inl e
                | Inr data \<Rightarrow> if trim data = [] then Inr (Document []) else JSON_parse E data))
          (\<lambda>error. Inr (Document [])))"

text \<open>
  \<^verbatim>\<open>
  export async function writeFileHashCache(cache: FileHashCache): Promise<void> {
      if (!fileHashCachePath) { return; }
      try {
          await ensureDirectoryExists(cacheDir);
          await fs.writeFile(tempFilePath, JSON.stringify(cache, null, 2));
          await fs.rename(tempFilePath, fileHashCachePath);
      } catch (error) { logger.error(...); }
  }
  \<close>
  The three file operations succeed together or not at all (\<open>cacheWritable\<close>); the
  temporary file is not modelled.
\<close>

definition cache_replace :: "string \<Rightarrow> world \<Rightarrow> error + world" where
  "cache_replace text w =
     (if cacheWritable w then Inr (w\<lparr>cacheFile := Contents text\<rparr>) else Inl IOError)"

definition writeFileHashCache :: "env \<Rightarrow> FileHashCache \<Rightarrow> world \<Rightarrow> error + world" where
  "writeFileHashCache E cache w =
     (if fileHashCachePath w = [] then Inr w
      else try_catch (cache_replace (JSON_stringify E cache) w) (\<lambda>error. Inr w))"

text \<open>
  \<^verbatim>\<open>
  export async function calculateFileHash(filePath: string, content?: string) {
      try {
          const fileContent = content || await fs.readFile(filePath, 'utf-8');
          return crypto.createHash('md5').update(fileContent).digest('hex');
      } catch (error) { logger.error(...); throw error; }
  }
  \<close>
  An optional string is truthy when it is given and not empty.
\<close>

definition truthy :: "string option \<Rightarrow> bool" where
  "truthy s = (case s of None \<Rightarrow> False | Some t \<Rightarrow> t \<noteq> [])"

definition contentOrRead :: "string option \<Rightarrow> path \<Rightarrow> world \<Rightarrow> (error + string) \<times> world" where
  "contentOrRead content filePath w =
     (case content of
        None \<Rightarrow> fs_readFile filePath w
      | Some c \<Rightarrow> if truthy content then (Inr c, w) else fs_readFile filePath w)"

definition calculateFileHash ::
  "env \<Rightarrow> path \<Rightarrow> string option \<Rightarrow> world \<Rightarrow> (error + string) \<times> world" where
  "calculateFileHash E filePath content w =
     (case contentOrRead content filePath w of
        (Inl e, w') \<Rightarrow> (Inl e, w')
      | (Inr fileContent, w') \<Rightarrow> (Inr (md5 E fileContent), w'))"

text \<open>
  \<^verbatim>\<open>
  export async function hasFileChanged(workspaceId, filePath, content?) {
      const cache = await readFileHashCache();
      const workspaceCache = cache[workspaceId] || {};
      const fileCache = workspaceCache[filePath];
      if (!fileCache) { return true; }
      try {
          const currentHash = await calculateFileHash(filePath, content);
          return currentHash !== fileCache.hash;
      } catch (error) { return true; }
  }
  \<close>
  The first two statements are outside the \<open>try\<close>: when the value loaded is \<open>null\<close>,
  \<open>cache[workspaceId]\<close> throws a \<open>TypeError\<close>, which \<open>hasFileChanged\<close> does not
  catch.
\<close>

definition workspaceOf :: "FileHashCache \<Rightarrow> string \<Rightarrow> WorkspaceCache" where
  "workspaceOf cache workspaceId =
     (case map_of cache workspaceId of None \<Rightarrow> [] | Some workspaceCache \<Rightarrow> workspaceCache)"

definition lookupEntry :: "FileHashCache \<Rightarrow> string \<Rightarrow> path \<Rightarrow> HashEntry option" where
  "lookupEntry cache workspaceId filePath = map_of (workspaceOf cache workspaceId) filePath"

definition hasFileChanged ::
  "env \<Rightarrow> string \<Rightarrow> path \<Rightarrow> string option \<Rightarrow> world \<Rightarrow> (error + bool) \<times> world" where
  "hasFileChanged E workspaceId filePath content w =
     (case readFileHashCache E w of
        Inl e \<Rightarrow> (Inl e, w)
      | Inr ParsedNull \<Rightarrow> (Inl TypeError, w)
      | Inr (Document cache) \<Rightarrow>
          (case lookupEntry cache workspaceId filePath of
             None \<Rightarrow> (Inr True, w)
           | Some fileCache \<Rightarrow>
               (case calculateFileHash E filePath content w of
                  (Inl e, w') \<Rightarrow> (Inr True, w')
                | (Inr currentHash, w') \<Rightarrow> (Inr (currentHash \<noteq> hash fileCache), w'))))"

text \<open>
  \<^verbatim>\<open>
  export async function updateFileHash(workspaceId, filePath, content?) {
      const cache = await readFileHashCache();
      if (!cache[workspaceId]) { cache[workspaceId] = {}; }
      const hash = await calculateFileHash(filePath, content);
      cache[workspaceId][filePath] = { hash, timestamp: Date.now() };
      await writeFileHashCache(cache);
  }
  \<close>
  On \<open>null\<close> the test \<open>!cache[workspaceId]\<close> throws a \<open>TypeError\<close>, before anything is
  read or written.
\<close>

definition setEntry :: "FileHashCache \<Rightarrow> string \<Rightarrow> path \<Rightarrow> HashEntry \<Rightarrow> FileHashCache" where
  "setEntry cache workspaceId filePath entry =
     (let cache1 =
            (if map_of cache workspaceId = None then AList.update workspaceId [] cache
             else cache)
      in AList.update workspaceId
           (AList.update filePath entry (workspaceOf cache1 workspaceId)) cache1)"

definition updateFileHash ::
  "env \<Rightarrow> string \<Rightarrow> path \<Rightarrow> string option \<Rightarrow> world \<Rightarrow> (error + unit) \<times> world" where
  "updateFileHash E workspaceId filePath content w =
     (case readFileHashCache E w of
        Inl e \<Rightarrow> (Inl e, w)
      | Inr ParsedNull \<Rightarrow> (Inl TypeError, w)
      | Inr (Document cache) \<Rightarrow>
          (case calculateFileHash E filePath content w of
             (Inl e, w') \<Rightarrow> (Inl e, w')
           | (Inr h, w') \<Rightarrow>
               (case writeFileHashCache E
                       (setEntry cache workspaceId filePath \<lparr>hash = h, timestamp = now w'\<rparr>) w' of
                  Inl e \<Rightarrow> (Inl e, w')
                | Inr w'' \<Rightarrow> (Inr (), w''))))"

text \<open>
  \<^verbatim>\<open>
  export async function cleanupFileHashCache(maxAgeMs = 30 * 24 * 60 * 60 * 1000) {
      const cache = await readFileHashCache();
      const now = Date.now();
      let entriesRemoved = 0;
      for (const workspaceId in cache) {
          const workspaceCache = cache[workspaceId];
          for (const filePath in workspaceCache) {
              const fileCache = workspaceCache[filePath];
              if (now - fileCache.timestamp > maxAgeMs) {
                  delete workspaceCache[filePath];
                  entriesRemoved++;
              }
          }
          if (Object.keys(workspaceCache).length === 0) { delete cache[workspaceId]; }
      }
      if (entriesRemoved > 0) { await writeFileHashCache(cache); }
  }
  \<close>
  The two loops walk the keys of the object in order; each returns what is left of the
  object and the number of entries it deleted. A \<open>for ... in\<close> loop over \<open>null\<close> has
  no iteration.
\<close>

fun sweepWorkspace :: "int \<Rightarrow> int \<Rightarrow> WorkspaceCache \<Rightarrow> WorkspaceCache \<times> nat" where
  "sweepWorkspace t maxAgeMs [] = ([], 0)"
| "sweepWorkspace t maxAgeMs ((filePath, fileCache) # rest) =
     (case sweepWorkspace t maxAgeMs rest of
        (kept, n) \<Rightarrow>
          if t - timestamp fileCache > maxAgeMs then (kept, Suc n)
          else ((filePath, fileCache) # kept, n))"

fun sweepCache :: "int \<Rightarrow> int \<Rightarrow> FileHashCache \<Rightarrow> FileHashCache \<times> nat" where
  "sweepCache t maxAgeMs [] = ([], 0)"
| "sweepCache t maxAgeMs ((workspaceId, workspaceCache) # rest) =
     (case sweepWorkspace t maxAgeMs workspaceCache of
        (workspaceCache', n) \<Rightarrow>
          (case sweepCache t maxAgeMs rest of
             (rest', m) \<Rightarrow>
               (if workspaceCache' = [] then rest' else (workspaceId, workspaceCache') # rest',
                n + m)))"

definition cleanupFileHashCache :: "env \<Rightarrow> int \<Rightarrow> world \<Rightarrow> (error + unit) \<times> world" where
  "cleanupFileHashCache E maxAgeMs w =
     (case readFileHashCache E w of
        Inl e \<Rightarrow> (Inl e, w)
      | Inr ParsedNull \<Rightarrow> (Inr (), w)
      | Inr (Document cache) \<Rightarrow>
          (case sweepCache (now w) maxAgeMs cache of
             (cache', entriesRemoved) \<Rightarrow>
               if entriesRemoved > 0 then
                 (case writeFileHashCache E cache' w of
                    Inl e \<Rightarrow> (Inl e, w)
                  | Inr w' \<Rightarrow> (Inr (), w'))
               else (Inr (), w)))"

text \<open>The keys of a JavaScript object are distinct.\<close>

definition wf_cache :: "FileHashCache \<Rightarrow> bool" where
  "wf_cache cache =
     (distinct (map fst cache) \<and> list_all (\<lambda>(workspaceId, wc). distinct (map fst wc)) cache)"

subsection \<open>The crawler: collecting the candidate files\<close>

text \<open>
  An entry of \<open>pendingFiles\<close>, \<open>{ path: string; relativePath: string }\<close>, and an
  element of the result, \<open>{ path, content }\<close> (the result's \<open>path\<close> is the entry's
  \<open>relativePath\<close>).
\<close>

record PendingFile =
  pendingPath :: path
  relativePath :: path

record FileInfo =
  infoPath :: path
  content :: string

record CrawlResult =
  files :: "FileInfo list"
  unchanged :: "nat option"

definition path_join :: "path \<Rightarrow> string \<Rightarrow> path" where
  "path_join p item = p @ [item]"

definition path_relative :: "path \<Rightarrow> path \<Rightarrow> path" where
  "path_relative rootDir p = drop (length rootDir) p"

definition path_basename :: "path \<Rightarrow> string" where
  "path_basename p = (if p = [] then [] else last p)"

text \<open>
  The exclusion checks of \<open>collectFilePaths\<close>:
  \<^verbatim>\<open>
  let excluded = false;
  if (gitignoreSpec && gitignoreSpec.ignores(relPath)) { excluded = true; }
  if (!excluded && excludePatterns) {
      for (const pattern of excludePatterns) {
          if (minimatch(relPath, pattern)) { excluded = true; break; }
      }
  }
  \<close>
  The first argument is \<open>minimatch\<close>; \<open>gitignoreSpec\<close> is \<open>None\<close> for \<open>null\<close>,
  and otherwise holds its method \<open>ignores\<close>.
\<close>

definition isExcluded ::
  "(path \<Rightarrow> string \<Rightarrow> bool) \<Rightarrow> (path \<Rightarrow> bool) option \<Rightarrow> string list option \<Rightarrow> path \<Rightarrow> bool" where
  "isExcluded mm gitignoreSpec excludePatterns relPath =
     (let excluded = (case gitignoreSpec of None \<Rightarrow> False | Some ignores \<Rightarrow> ignores relPath)
      in if \<not> excluded then
           (case excludePatterns of
              None \<Rightarrow> excluded
            | Some patterns \<Rightarrow> list_ex (\<lambda>pattern. mm relPath pattern) patterns)
         else excluded)"

text \<open>
  \<^verbatim>\<open>
  let included = false;
  if (!includePatterns || includePatterns?.includes("*")) { included = true; }
  else { for (const pattern of includePatterns) {
             if (minimatch(relPath, pattern)) { included = true; break; } } }
  \<close>
\<close>

definition isIncluded ::
  "(path \<Rightarrow> string \<Rightarrow> bool) \<Rightarrow> string list option \<Rightarrow> path \<Rightarrow> bool" where
  "isIncluded mm includePatterns relPath =
     (case includePatterns of
        None \<Rightarrow> True
      | Some patterns \<Rightarrow>
          if ''*'' \<in> set patterns then True
          else list_ex (\<lambda>pattern. mm relPath pattern) patterns)"

text \<open>
  \<^verbatim>\<open>
  async function collectFilePaths(rootDir, currentPath, useRelativePaths) {
      const items = await fs.readdir(currentPath);
      for (const item of items) {
          const itemPath = path.join(currentPath, item);
          const stats = await fs.stat(itemPath);
          const relPath = useRelativePaths ? path.relative(rootDir, itemPath) : itemPath;
          ... exclusion checks ...
          if (stats.isDirectory() && !excluded) {
              await collectFilePaths(rootDir, itemPath, useRelativePaths);
              continue;
          }
          if (!stats.isFile() || excluded) { continue; }
          ... inclusion checks ...
          if (!included) { continue; }
          pendingFiles.push({ path: itemPath, relativePath: relPath });
      }
  }
  \<close>
  \<open>collectFilePaths\<close> is given the node at \<open>currentPath\<close>; \<open>collectItems\<close> is its
  loop over the entries of the directory. Neither \<open>fs.readdir\<close> nor \<open>fs.stat\<close> is
  inside a \<open>try\<close>: a failure ends the traversal with the error. The list
  \<open>pendingFiles\<close> is threaded through.
\<close>

fun collectFilePaths ::
    "(path \<Rightarrow> string \<Rightarrow> bool) \<Rightarrow> (path \<Rightarrow> bool) option \<Rightarrow> string list option \<Rightarrow>
     string list option \<Rightarrow> path \<Rightarrow> path \<Rightarrow> bool \<Rightarrow> fsnode \<Rightarrow> PendingFile list \<Rightarrow>
     error + PendingFile list"
  and collectItems ::
    "(path \<Rightarrow> string \<Rightarrow> bool) \<Rightarrow> (path \<Rightarrow> bool) option \<Rightarrow> string list option \<Rightarrow>
     string list option \<Rightarrow> path \<Rightarrow> path \<Rightarrow> bool \<Rightarrow> (string \<times> fsnode) list \<Rightarrow>
     PendingFile list \<Rightarrow> error + PendingFile list"
where
  "collectFilePaths mm gitignoreSpec includePatterns excludePatterns rootDir currentPath
      useRelativePaths (Directory items) pendingFiles =
     collectItems mm gitignoreSpec includePatterns excludePatterns rootDir currentPath
       useRelativePaths items pendingFiles"
| "collectFilePaths mm gitignoreSpec includePatterns excludePatterns rootDir currentPath
      useRelativePaths (RegularFile sz c) pendingFiles = Inl IOError"
| "collectFilePaths mm gitignoreSpec includePatterns excludePatterns rootDir currentPath
      useRelativePaths UnreadableDirectory pendingFiles = Inl IOError"
| "collectFilePaths mm gitignoreSpec includePatterns excludePatterns rootDir currentPath
      useRelativePaths OtherEntry pendingFiles = Inl IOError"
| "collectFilePaths mm gitignoreSpec includePatterns excludePatterns rootDir currentPath
      useRelativePaths Unstatable pendingFiles = Inl IOError"
| "collectItems mm gitignoreSpec includePatterns excludePatterns rootDir currentPath
      useRelativePaths [] pendingFiles = Inr pendingFiles"
| "collectItems mm gitignoreSpec includePatterns excludePatterns rootDir currentPath
      useRelativePaths ((item, stats) # rest) pendingFiles =
     (let itemPath = path_join currentPath item in
      if stats = Unstatable then Inl IOError
      else
        let relPath = (if useRelativePaths then path_relative rootDir itemPath else itemPath);
            excluded = isExcluded mm gitignoreSpec excludePatterns relPath
        in
          if isDirectory stats \<and> \<not> excluded then
            (case collectFilePaths mm gitignoreSpec includePatterns excludePatterns rootDir
                    itemPath useRelativePaths stats pendingFiles of
               Inl e \<Rightarrow> Inl e
             | Inr pendingFiles' \<Rightarrow>
                 collectItems mm gitignoreSpec includePatterns excludePatterns rootDir
                   currentPath useRelativePaths rest pendingFiles')
          else if \<not> isFile stats \<or> excluded then
            collectItems mm gitignoreSpec includePatterns excludePatterns rootDir currentPath
              useRelativePaths rest pendingFiles
          else if \<not> isIncluded mm includePatterns relPath then
            collectItems mm gitignoreSpec includePatterns excludePatterns rootDir currentPath
              useRelativePaths rest pendingFiles
          else
            collectItems mm gitignoreSpec includePatterns excludePatterns rootDir currentPath
              useRelativePaths rest
              (pendingFiles @ [\<lparr>pendingPath = itemPath, relativePath = relPath\<rparr>]))"

subsection \<open>The crawler: reading the candidates in batches\<close>

text \<open>
  The body of the task that \<open>crawlLocalFilesAsync\<close> starts for each candidate, after
  the progress callback:
  \<^verbatim>\<open>
  const stats = await fs.stat(fileInfo.path);
  if (maxFileSize && stats.size > maxFileSize) { return null; }
  if (incrementalProcessing && workspaceId) {
      const fileChanged = await hasFileChanged(workspaceId, fileInfo.path);
      if (!fileChanged) { unchangedCount++; return null; }
  }
  const content = await fs.readFile(fileInfo.path, "utf-8");
  if (incrementalProcessing && workspaceId) {
      await updateFileHash(workspaceId, fileInfo.path, content);
  }
  return { path: fileInfo.relativePath, content };
  \<close>
  The state is the world together with \<open>unchangedCount\<close>.
\<close>

definition fs_stat :: "path \<Rightarrow> world \<Rightarrow> error + fsnode" where
  "fs_stat p w =
     (case node_at (fsRoot w) p of
        None \<Rightarrow> Inl IOError
      | Some n \<Rightarrow> if n = Unstatable then Inl IOError else Inr n)"

definition tooLarge :: "nat option \<Rightarrow> nat \<Rightarrow> bool" where
  "tooLarge maxFileSize sz =
     (case maxFileSize of None \<Rightarrow> False | Some m \<Rightarrow> m \<noteq> 0 \<and> sz > m)"

text \<open>The string of a \<open>workspaceId\<close> that has passed the test \<open>&& workspaceId\<close>.\<close>

definition workspaceName :: "string option \<Rightarrow> string" where
  "workspaceName workspaceId = (case workspaceId of None \<Rightarrow> [] | Some s \<Rightarrow> s)"

definition readAndRecord ::
  "env \<Rightarrow> bool \<Rightarrow> string option \<Rightarrow> PendingFile \<Rightarrow> world \<Rightarrow> (error + FileInfo option) \<times> world" where
  "readAndRecord E incrementalProcessing workspaceId fileInfo w =
     (case fs_readFile (pendingPath fileInfo) w of
        (Inl e, w1) \<Rightarrow> (Inl e, w1)
      | (Inr text, w1) \<Rightarrow>
          if incrementalProcessing \<and> truthy workspaceId then
            (case updateFileHash E (workspaceName workspaceId) (pendingPath fileInfo) (Some text) w1 of
               (Inl e, w2) \<Rightarrow> (Inl e, w2)
             | (Inr u, w2) \<Rightarrow>
                 (Inr (Some \<lparr>infoPath = relativePath fileInfo, content = text\<rparr>), w2))
          else (Inr (Some \<lparr>infoPath = relativePath fileInfo, content = text\<rparr>), w1))"

definition fileTask ::
  "env \<Rightarrow> nat option \<Rightarrow> bool \<Rightarrow> string option \<Rightarrow> PendingFile \<Rightarrow> world \<times> nat \<Rightarrow>
   (error + FileInfo option) \<times> world \<times> nat" where
  "fileTask E maxFileSize incrementalProcessing workspaceId fileInfo st =
     (case st of (w, unchangedCount) \<Rightarrow>
        (case fs_stat (pendingPath fileInfo) w of
           Inl e \<Rightarrow> (Inl e, w, unchangedCount)
         | Inr stats \<Rightarrow>
             if tooLarge maxFileSize (statSize stats) then (Inr None, w, unchangedCount)
             else if incrementalProcessing \<and> truthy workspaceId then
               (case hasFileChanged E (workspaceName workspaceId) (pendingPath fileInfo) None w of
                  (Inl e, w1) \<Rightarrow> (Inl e, w1, unchangedCount)
                | (Inr fileChanged, w1) \<Rightarrow>
                    if \<not> fileChanged then (Inr None, w1, Suc unchangedCount)
                    else
                      (case readAndRecord E incrementalProcessing workspaceId fileInfo w1 of
                         (r, w2) \<Rightarrow> (r, w2, unchangedCount)))
             else
               (case readAndRecord E incrementalProcessing workspaceId fileInfo w of
                  (r, w2) \<Rightarrow> (r, w2, unchangedCount))))"

text \<open>
  \<^verbatim>\<open>
  batch.map(async (fileInfo, index) => {
      try {
          if (progressCallback) { progressCallback(i + index, totalFiles, fileInfo.path); }
          ... the task body ...
      } catch (e) { logger.warn(...); return null; }
  })
  \<close>
  A progress callback works on a state of its own (type \<open>'c\<close>); it returns the
  exception it throws, if any, and the state it leaves. Each task of a batch runs up
  to its first \<open>await\<close> when \<open>map\<close> calls it, so the callbacks of a batch run first,
  in index order (\<open>startTasks\<close>). The tasks then interleave at their \<open>await\<close>s;
  \<open>finishTasks\<close> runs one after the other, in index order. An exception in a task,
  from the callback or from the body, is caught inside the task, whose result is then
  \<open>null\<close>.
\<close>

type_synonym 'c callback = "nat \<Rightarrow> nat \<Rightarrow> path \<Rightarrow> 'c \<Rightarrow> error option \<times> 'c"

definition callProgress :: "'c callback option \<Rightarrow> nat \<Rightarrow> nat \<Rightarrow> path \<Rightarrow> 'c \<Rightarrow> error option \<times> 'c" where
  "callProgress progressCallback current totalFiles p c =
     (case progressCallback of None \<Rightarrow> (None, c) | Some f \<Rightarrow> f current totalFiles p c)"

fun startTasks ::
  "'c callback option \<Rightarrow> nat \<Rightarrow> nat \<Rightarrow> PendingFile list \<Rightarrow> 'c \<Rightarrow>
   (PendingFile \<times> error option) list \<times> 'c" where
  "startTasks progressCallback index totalFiles [] c = ([], c)"
| "startTasks progressCallback index totalFiles (fileInfo # batch) c =
     (case callProgress progressCallback index totalFiles (pendingPath fileInfo) c of
        (thrown, c1) \<Rightarrow>
          (case startTasks progressCallback (Suc index) totalFiles batch c1 of
             (started, c2) \<Rightarrow> ((fileInfo, thrown) # started, c2)))"

fun finishTasks ::
  "env \<Rightarrow> nat option \<Rightarrow> bool \<Rightarrow> string option \<Rightarrow> (PendingFile \<times> error option) list \<Rightarrow>
   world \<times> nat \<Rightarrow> FileInfo option list \<times> world \<times> nat" where
  "finishTasks E maxFileSize incrementalProcessing workspaceId [] st = ([], st)"
| "finishTasks E maxFileSize incrementalProcessing workspaceId ((fileInfo, thrown) # started) st =
     (case (case thrown of
              Some e \<Rightarrow> (None, st)
            | None \<Rightarrow>
                (case fileTask E maxFileSize incrementalProcessing workspaceId fileInfo st of
                   (Inl e, st1) \<Rightarrow> (None, st1)
                 | (Inr r, st1) \<Rightarrow> (r, st1))) of
        (result, st1) \<Rightarrow>
          (case finishTasks E maxFileSize incrementalProcessing workspaceId started st1 of
             (results, st2) \<Rightarrow> (result # results, st2)))"

text \<open>
  \<^verbatim>\<open>
  const batchSize = 50;
  for (let i = 0; i < pendingFiles.length; i += batchSize) {
      const batch = pendingFiles.slice(i, i + batchSize);
      const results = await Promise.all(batch.map(...));
      results.filter(Boolean).forEach(result => { if (result) { filesList.push(result); } });
  }
  \<close>
\<close>

definition batchSize :: nat where
  "batchSize = 50"

function processBatches ::
  "env \<Rightarrow> nat option \<Rightarrow> bool \<Rightarrow> string option \<Rightarrow> 'c callback option \<Rightarrow> PendingFile list \<Rightarrow>
   nat \<Rightarrow> FileInfo list \<times> (world \<times> nat) \<times> 'c \<Rightarrow> FileInfo list \<times> (world \<times> nat) \<times> 'c" where
  "processBatches E maxFileSize incrementalProcessing workspaceId progressCallback pendingFiles i s =
     (if i < length pendingFiles then
        (case s of (filesList, st, c) \<Rightarrow>
           (case startTasks progressCallback i (length pendingFiles)
                   (take batchSize (drop i pendingFiles)) c of
              (started, c1) \<Rightarrow>
                (case finishTasks E maxFileSize incrementalProcessing workspaceId started st of
                   (results, st1) \<Rightarrow>
                     processBatches E maxFileSize incrementalProcessing workspaceId
                       progressCallback pendingFiles (i + batchSize)
                       (filesList @ List.map_filter id results, st1, c1))))
      else s)"
  by pat_completeness auto
termination
  by (relation "measure (\<lambda>(E, m, inc, ws, cb, pendingFiles, i, s). length pendingFiles - i)")
    (auto simp: batchSize_def)

declare processBatches.simps [simp del]

text \<open>
  \<^verbatim>\<open>
  export async function crawlLocalFilesAsync(directory, includePatterns?, excludePatterns?,
      maxFileSize?, useRelativePaths = true, progressCallback?,
      incrementalProcessing = false, workspaceId?): Promise<CrawlResult> {
      if (!existsSync(directory) || !statSync(directory).isDirectory()) {
          throw new Error(`Directory does not exist: ${directory}`);
      }
      ... load .gitignore ...
      await collectFilePaths(directory, directory, useRelativePaths);
      if (incrementalProcessing && !workspaceId) { workspaceId = path.basename(directory); }
      ... the batches ...
      return { files: filesList, unchanged: incrementalProcessing ? unchangedCount : undefined };
  }
  \<close>
\<close>

text \<open>\<open>gitignoreContent.split("\n")\<close>\<close>

fun split_lines :: "string \<Rightarrow> string list" where
  "split_lines [] = [[]]"
| "split_lines (c # cs) =
     (if c = CHR 0x0A then [] # split_lines cs
      else (case split_lines cs of [] \<Rightarrow> [[c]] | l # ls \<Rightarrow> (c # l) # ls))"

text \<open>
  \<^verbatim>\<open>
  let gitignoreSpec = null;
  if (existsSync(gitignorePath)) {
      try {
          const gitignoreContent = await fs.readFile(gitignorePath, "utf-8");
          gitignoreSpec = ignore().add(gitignoreContent.split("\n"));
      } catch (e) { logger.warn(...); }
  }
  \<close>
\<close>

definition existsSync :: "path \<Rightarrow> world \<Rightarrow> bool" where
  "existsSync p w = (case fs_stat p w of Inl e \<Rightarrow> False | Inr n \<Rightarrow> True)"

definition loadGitignore :: "env \<Rightarrow> path \<Rightarrow> world \<Rightarrow> (path \<Rightarrow> bool) option \<times> world" where
  "loadGitignore E dir w =
     (let gitignorePath = path_join dir ''.gitignore'' in
      if existsSync gitignorePath w then
        (case fs_readFile gitignorePath w of
           (Inl e, w1) \<Rightarrow> (None, w1)
         | (Inr gitignoreContent, w1) \<Rightarrow>
             (Some (ignore_add E (split_lines gitignoreContent)), w1))
      else (None, w))"

definition crawlLocalFilesAsync ::
  "env \<Rightarrow> path \<Rightarrow> string list option \<Rightarrow> string list option \<Rightarrow> nat option \<Rightarrow> bool \<Rightarrow>
   'c callback option \<Rightarrow> bool \<Rightarrow> string option \<Rightarrow> world \<times> 'c \<Rightarrow>
   (error + CrawlResult) \<times> world \<times> 'c" where
  "crawlLocalFilesAsync E directory includePatterns excludePatterns maxFileSize
      useRelativePaths progressCallback incrementalProcessing workspaceId s =
     (case s of (w, c) \<Rightarrow>
        (case fs_stat directory w of
           Inl e \<Rightarrow> (Inl DirectoryDoesNotExist, w, c)
         | Inr dirNode \<Rightarrow>
             if \<not> isDirectory dirNode then (Inl DirectoryDoesNotExist, w, c)
             else
               (case loadGitignore E directory w of
                  (gitignoreSpec, w1) \<Rightarrow>
                    (case collectFilePaths (minimatch E) gitignoreSpec includePatterns
                            excludePatterns directory directory useRelativePaths dirNode [] of
                       Inl e \<Rightarrow> (Inl e, w1, c)
                     | Inr pendingFiles \<Rightarrow>
                         (let workspaceId' =
                                (if incrementalProcessing \<and> \<not> truthy workspaceId
                                 then Some (path_basename directory)
                                 else workspaceId)
                          in
                            (case processBatches E maxFileSize incrementalProcessing
                                    workspaceId' progressCallback pendingFiles 0
                                    ([], (w1, 0), c) of
                               (filesList, (w2, unchangedCount), c2) \<Rightarrow>
                                 (Inr \<lparr>files = filesList,
                                        unchanged =
                                          (if incrementalProcessing
                                           then Some unchangedCount else None)\<rparr>,
                                  w2, c2)))))))"

subsection \<open>The progress manager\<close>

datatype ProcessStage =
    INITIALIZING
  | FETCHING_FILES
  | IDENTIFYING_ABSTRACTIONS
  | ANALYZING_RELATIONSHIPS
  | ORDERING_CHAPTERS
  | WRITING_CHAPTERS
  | COMBINING_TUTORIAL
  | COMPLETED

fun STAGE_WEIGHTS :: "ProcessStage \<Rightarrow> real" where
  "STAGE_WEIGHTS INITIALIZING = 5"
| "STAGE_WEIGHTS FETCHING_FILES = 15"
| "STAGE_WEIGHTS IDENTIFYING_ABSTRACTIONS = 20"
| "STAGE_WEIGHTS ANALYZING_RELATIONSHIPS = 15"
| "STAGE_WEIGHTS ORDERING_CHAPTERS = 10"
| "STAGE_WEIGHTS WRITING_CHAPTERS = 25"
| "STAGE_WEIGHTS COMBINING_TUTORIAL = 10"
| "STAGE_WEIGHTS COMPLETED = 0"

text \<open>\<open>Object.values(ProcessStage)\<close>, which is also the order of the keys of the map
  \<open>stageProgress\<close>.\<close>

definition allStages :: "ProcessStage list" where
  "allStages =
     [INITIALIZING, FETCHING_FILES, IDENTIFYING_ABSTRACTIONS, ANALYZING_RELATIONSHIPS,
      ORDERING_CHAPTERS, WRITING_CHAPTERS, COMBINING_TUTORIAL, COMPLETED]"

text \<open>
  The cancellation token of the host: \<open>CancellationToken None\<close> is never cancelled;
  \<open>CancellationToken (Some n)\<close> answers \<open>false\<close> to the next \<open>n\<close> readings of
  \<open>isCancellationRequested\<close> and \<open>true\<close> from then on.
\<close>

datatype CancellationToken = CancellationToken "nat option"

text \<open>
  The fields of the class. The progress object of the host is the list of the
  increments reported to it so far (the messages are left out); \<open>None\<close> is
  \<open>undefined\<close>. The map \<open>stageProgress\<close> holds every stage from the constructor on.
\<close>

record ProgressManager =
  progress :: "real list option"
  token :: "CancellationToken option"
  currentStage :: ProcessStage
  stageProgress :: "ProcessStage \<Rightarrow> real"
  totalProgress :: real
  lastReportedProgress :: real

definition newProgressManager :: ProgressManager where
  "newProgressManager =
     \<lparr>progress = None, token = None, currentStage = INITIALIZING,
      stageProgress = (\<lambda>stage. 0), totalProgress = 0, lastReportedProgress = 0\<rparr>"

definition setProgressObjects ::
  "real list \<Rightarrow> CancellationToken \<Rightarrow> ProgressManager \<Rightarrow> ProgressManager" where
  "setProgressObjects sink tok pm = pm\<lparr>progress := Some sink, token := Some tok\<rparr>"

text \<open>
  \<^verbatim>\<open>
  private reportProgress(increment: number, message: string): void {
      if (this.progress) {
          this.progress.report({ increment: Math.max(0, increment), message });
      }
  }
  \<close>
\<close>

definition reportProgress :: "real \<Rightarrow> ProgressManager \<Rightarrow> ProgressManager" where
  "reportProgress increment pm =
     (case progress pm of
        None \<Rightarrow> pm
      | Some sink \<Rightarrow> pm\<lparr>progress := Some (sink @ [max 0 increment])\<rparr>)"

text \<open>
  \<^verbatim>\<open>
  private calculateTotalProgress(): void {
      let total = 0;
      let totalWeight = 0;
      this.stageProgress.forEach((progress, stage) => {
          const weight = STAGE_WEIGHTS[stage];
          total += (progress / 100) * weight;
          totalWeight += weight;
      });
      this.totalProgress = (total / totalWeight) * 100;
  }
  \<close>
\<close>

definition calculateTotalProgress :: "ProgressManager \<Rightarrow> ProgressManager" where
  "calculateTotalProgress pm =
     (let total =
            foldl (\<lambda>total stage. total + (stageProgress pm stage / 100) * STAGE_WEIGHTS stage)
              0 allStages;
          totalWeight = foldl (\<lambda>totalWeight stage. totalWeight + STAGE_WEIGHTS stage) 0 allStages
      in pm\<lparr>totalProgress := (total / totalWeight) * 100\<rparr>)"


definition clampPercentage :: "real \<Rightarrow> real" where
  "clampPercentage percentage =
     (let p = (if percentage < 0 then 0 else percentage)
      in if p > 100 then 100 else p)"

definition recordAndReport :: "real \<Rightarrow> ProgressManager \<Rightarrow> ProgressManager" where
  "recordAndReport percentage pm =
     (let pm1 = pm\<lparr>stageProgress := (stageProgress pm)(currentStage pm := percentage)\<rparr>;
          pm2 = calculateTotalProgress pm1;
          pm3 = reportProgress (totalProgress pm2 - lastReportedProgress pm2) pm2
      in pm3\<lparr>lastReportedProgress := totalProgress pm3\<rparr>)"

definition updateStageProgress :: "real \<Rightarrow> ProgressManager \<Rightarrow> ProgressManager" where
  "updateStageProgress percentage pm = recordAndReport (clampPercentage percentage) pm"


text \<open>
  \<^verbatim>\<open>
  public isCancelled(): boolean { return this.token?.isCancellationRequested || false; }
  public reset(): void {
      this.currentStage = ProcessStage.INITIALIZING;
      this.totalProgress = 0;
      this.lastReportedProgress = 0;
      Object.values(ProcessStage).forEach(stage => { this.stageProgress.set(stage, 0); });
  }
  \<close>
\<close>

definition isCancelled :: "ProgressManager \<Rightarrow> bool \<times> ProgressManager" where
  "isCancelled pm =
     (case token pm of
        None \<Rightarrow> (False, pm)
      | Some (CancellationToken None) \<Rightarrow> (False, pm)
      | Some (CancellationToken (Some 0)) \<Rightarrow> (True, pm)
      | Some (CancellationToken (Some (Suc n))) \<Rightarrow>
          (False, pm\<lparr>token := Some (CancellationToken (Some n))\<rparr>))"

definition reset :: "ProgressManager \<Rightarrow> ProgressManager" where
  "reset pm =
     pm\<lparr>currentStage := INITIALIZING, totalProgress := 0, lastReportedProgress := 0,
        stageProgress := (\<lambda>stage. 0)\<rparr>"





subsection \<open>The file fetching stage\<close>

text \<open>
  \<^verbatim>\<open>
  async exec(preRes: SharedStore): Promise<FileInfo[]> {
      try {
          this.progressManager.updateStageProgress(0, "Scanning directory...");
          if (this.progressManager.isCancelled()) { throw new Error("Operation cancelled by user"); }
          const result = await crawlLocalFilesAsync(preRes.localDir, preRes.includePatterns,
              preRes.excludePatterns, preRes.maxFileSize * 1024, true,
              (current, total, filePath) => {
                  const percent = Math.round((current / total) * 100);
                  this.progressManager.updateStageProgress(percent, ...);
                  if (this.progressManager.isCancelled()) {
                      throw new Error("Operation cancelled by user");
                  }
              });
          if (result.files.length === 0) {
              throw new Error(`No files found in directory: ${preRes.localDir}`);
          }
          this.progressManager.updateStageProgress(100, ...);
          return result.files;
      } catch (error) { this.logger.error(...); throw error; }
  }
  \<close>
  Of the shared store only the fields that \<open>exec\<close> reads are modelled; an undefined
  \<open>maxFileSize\<close> makes the product \<open>NaN\<close>, which the crawler treats as no limit.
  The fields \<open>includePatterns\<close>, \<open>excludePatterns\<close> and \<open>maxFileSize\<close> of the
  store carry the prefix \<open>store\<close> here.
\<close>

record SharedStore =
  localDir :: path
  storeIncludePatterns :: "string list option"
  storeExcludePatterns :: "string list option"
  storeMaxFileSize :: "nat option"

definition Math_round :: "real \<Rightarrow> real" where
  "Math_round x = of_int \<lfloor>x + 1 / 2\<rfloor>"

definition scanCallback :: "ProgressManager callback" where
  "scanCallback current totalFiles filePath pm =
     (let percent = Math_round ((real current / real totalFiles) * 100);
          pm1 = updateStageProgress percent pm
      in case isCancelled pm1 of
           (True, pm2) \<Rightarrow> (Some OperationCancelled, pm2)
         | (False, pm2) \<Rightarrow> (None, pm2))"

definition exec ::
  "env \<Rightarrow> SharedStore \<Rightarrow> world \<times> ProgressManager \<Rightarrow>
   (error + FileInfo list) \<times> world \<times> ProgressManager" where
  "exec E preRes s =
     (case s of (w, pm) \<Rightarrow>
        (let pm1 = updateStageProgress 0 pm in
         case isCancelled pm1 of
           (True, pm2) \<Rightarrow> (Inl OperationCancelled, w, pm2)
         | (False, pm2) \<Rightarrow>
             (case crawlLocalFilesAsync E (localDir preRes) (storeIncludePatterns preRes)
                     (storeExcludePatterns preRes)
                     (map_option (\<lambda>kb. kb * 1024) (storeMaxFileSize preRes))
                     True (Some scanCallback) False None (w, pm2) of
                (Inl e, w1, pm3) \<Rightarrow> (Inl e, w1, pm3)
              | (Inr result, w1, pm3) \<Rightarrow>
                  if length (files result) = 0 then (Inl NoFilesFound, w1, pm3)
                  else (Inr (files result), w1, updateStageProgress 100 pm3))))"

subsection \<open>Notions used in the statements\<close>

text \<open>The relative path that \<open>collectFilePaths\<close> computes for an entry.\<close>

definition relPathOf :: "path \<Rightarrow> bool \<Rightarrow> path \<Rightarrow> path" where
  "relPathOf rootDir useRelativePaths itemPath =
     (if useRelativePaths then path_relative rootDir itemPath else itemPath)"

text \<open>The directories strictly between the root of the crawl and a path below it.\<close>

definition ancestorDirs :: "path \<Rightarrow> path \<Rightarrow> path list" where
  "ancestorDirs rootDir p = map (\<lambda>k. take k p) [Suc (length rootDir)..<length p]"

text \<open>
  A candidate found below \<open>cur\<close>: its path extends \<open>cur\<close>, and neither the candidate
  nor any directory on the way from \<open>cur\<close> to it is excluded.
\<close>

definition reached ::
  "(path \<Rightarrow> string \<Rightarrow> bool) \<Rightarrow> (path \<Rightarrow> bool) option \<Rightarrow> string list option \<Rightarrow> path \<Rightarrow> bool \<Rightarrow>
   path \<Rightarrow> PendingFile \<Rightarrow> bool" where
  "reached mm spec exc rootDir useRel cur f =
     (\<exists>suffix. suffix \<noteq> [] \<and> pendingPath f = cur @ suffix \<and>
        relativePath f = relPathOf rootDir useRel (pendingPath f) \<and>
        (\<forall>k. 0 < k \<and> k \<le> length suffix \<longrightarrow>
           \<not> isExcluded mm spec exc (relPathOf rootDir useRel (cur @ take k suffix))))"










subsection \<open>Concrete instances\<close>

text \<open>
  An environment, file trees and call sequences on which the theorems below are
  instantiated. The parser and the printer of the environment know the six documents
  of \<open>demo_documents\<close>; its digest prefixes the text with \<open>md5:\<close>; its ignore rules
  match a path one of whose segments is a pattern; its glob matcher matches a path
  whose last segment is the pattern.
\<close>

definition demo_documents :: "(string \<times> FileHashCache) list" where
  \<open>demo_documents =
     [(''{}'', []),
      (''{"w1":{}}'', [(''w1'', [])]),
      (''{"w1":{"/a.txt":{"hash":"stale","timestamp":10}}}'',
         [(''w1'', [([''a.txt''], \<lparr>hash = ''stale'', timestamp = 10\<rparr>)])]),
      (''{"w1":{"/a.txt":{"hash":"md5:hello","timestamp":100}}}'',
         [(''w1'', [([''a.txt''], \<lparr>hash = ''md5:hello'', timestamp = 100\<rparr>)])]),
      (''{"w1":{"/a.txt":{"hash":"h1","timestamp":10},"/b.txt":{"hash":"h2","timestamp":90}},"w2":{"/c.txt":{"hash":"h3","timestamp":20}}}'',
         [(''w1'', [([''a.txt''], \<lparr>hash = ''h1'', timestamp = 10\<rparr>),
                    ([''b.txt''], \<lparr>hash = ''h2'', timestamp = 90\<rparr>)]),
          (''w2'', [([''c.txt''], \<lparr>hash = ''h3'', timestamp = 20\<rparr>)])]),
      (''{"w1":{"/b.txt":{"hash":"h2","timestamp":90}}}'',
         [(''w1'', [([''b.txt''], \<lparr>hash = ''h2'', timestamp = 90\<rparr>)])])]\<close>

definition demo_parse :: "string \<Rightarrow> error + parsed" where
  "demo_parse text =
     (if text = ''null'' then Inr ParsedNull
      else
        (case map_of demo_documents text of
           None \<Rightarrow> Inl SyntaxError
         | Some cache \<Rightarrow> Inr (Document cache)))"

definition demo_stringify :: "FileHashCache \<Rightarrow> string" where
  "demo_stringify cache =
     (case map_of (map (\<lambda>(text, c). (c, text)) demo_documents) cache of
        None \<Rightarrow> ''{}''
      | Some text \<Rightarrow> text)"

definition demo_env :: env where
  "demo_env =
     \<lparr>JSON_parse = demo_parse, JSON_stringify = demo_stringify,
      md5 = (\<lambda>text. ''md5:'' @ text),
      ignore_add = (\<lambda>patterns relPath. list_ex (\<lambda>segment. segment \<in> set patterns) relPath),
      minimatch = (\<lambda>relPath pattern. relPath \<noteq> [] \<and> last relPath = pattern)\<rparr>"

definition demo_tree :: fsnode where
  "demo_tree =
     Directory
       [(''a.txt'', RegularFile 5 (Some ''hello'')),
        (''b.txt'', RegularFile 5 (Some ''world'')),
        (''node_modules'', Directory [(''x.js'', RegularFile 3 (Some ''x=1''))])]"

definition demo_single :: fsnode where
  "demo_single = Directory [(''a.txt'', RegularFile 5 (Some ''hello''))]"

definition demo_world :: "fsnode \<Rightarrow> cache_file \<Rightarrow> world" where
  "demo_world tree f =
     \<lparr>fsRoot = tree, reads = [], fileHashCachePath = ''/storage/cache.json'', cacheFile = f,
      cacheWritable = True, now = 100\<rparr>"

definition demo_pm :: ProgressManager where
  "demo_pm = setProgressObjects [] (CancellationToken None) (reset newProgressManager)"

definition demo_store :: SharedStore where
  "demo_store =
     \<lparr>localDir = [], storeIncludePatterns = None, storeExcludePatterns = None,
      storeMaxFileSize = Some 100\<rparr>"



section \<open>Properties of the file hash cache\<close>


subsection \<open>Loading the document\<close>

lemmas demo_simps =
  demo_env_def demo_world_def demo_parse_def demo_stringify_def demo_documents_def
  demo_single_def demo_tree_def

lemmas cache_simps =
  hasFileChanged_def updateFileHash_def calculateFileHash_def contentOrRead_def
  lookupEntry_def workspaceOf_def setEntry_def writeFileHashCache_def cache_replace_def
  readFileHashCache_def try_catch_def cache_access_def cache_readFile_def trim_def
  isWhiteSpace_def truthy_def

text \<open>
  Claim C8. Loading the hash cache never propagates an error: \<open>readFileHashCache\<close>
  always returns a value, and when the cache file is missing, when it is empty (or
  only white space), and when its content is not valid JSON, the value returned is
  the empty document.
\<close>

theorem readFileHashCache_degrades:
  "(\<exists>loaded. readFileHashCache E w = Inr loaded) \<and>
   (cacheFile w = NoFile \<or>
    (\<exists>data. cacheFile w = Contents data \<and> (trim data = [] \<or> isl (JSON_parse E data)))
      \<longrightarrow> readFileHashCache E w = Inr (Document []))"
  by (auto simp: readFileHashCache_def try_catch_def cache_access_def cache_readFile_def isl_def
      split: sum.splits cache_file.splits)

theorem readFileHashCache_degrades_witness:
  "readFileHashCache demo_env (demo_world demo_single NoFile) = Inr (Document []) \<and>
   readFileHashCache demo_env (demo_world demo_single (Contents [])) = Inr (Document []) \<and>
   readFileHashCache demo_env (demo_world demo_single (Contents ''{ not json'')) =
     Inr (Document [])"
  using readFileHashCache_degrades [of demo_env "demo_world demo_single NoFile"]
    readFileHashCache_degrades [of demo_env "demo_world demo_single (Contents [])"]
    readFileHashCache_degrades [of demo_env "demo_world demo_single (Contents ''{ not json'')"]
  by (simp add: demo_env_def demo_world_def demo_parse_def demo_documents_def trim_def)

subsection \<open>Change detection\<close>

text \<open>
  When the value loaded is a document, \<open>hasFileChanged\<close> returns a boolean, which is
  true exactly when the document has no entry for the workspace and path, or the
  digest cannot be computed, or the digest computed differs from the digest stored.
\<close>

lemma hasFileChanged_document:
  assumes "readFileHashCache E w = Inr (Document cache)"
  shows "fst (hasFileChanged E ws p c w) =
       Inr (lookupEntry cache ws p = None \<or>
            isl (fst (calculateFileHash E p c w)) \<or>
            (\<exists>fileCache currentHash.
               lookupEntry cache ws p = Some fileCache \<and>
               fst (calculateFileHash E p c w) = Inr currentHash \<and>
               currentHash \<noteq> hash fileCache)) \<and>
     (fst (hasFileChanged E ws p c w) = Inr False \<longleftrightarrow>
        (\<exists>fileCache.
           lookupEntry cache ws p = Some fileCache \<and>
           fst (calculateFileHash E p c w) = Inr (hash fileCache)))"
proof (cases "lookupEntry cache ws p")
  case None
  then show ?thesis using assms by (simp add: hasFileChanged_def)
next
  case (Some fileCache)
  obtain r w' where h: "calculateFileHash E p c w = (r, w')"
    by (cases "calculateFileHash E p c w")
  show ?thesis using assms Some h
    by (cases r) (auto simp: hasFileChanged_def)
qed


text \<open>
  Claim C1 says that \<open>hasFileChanged\<close> returns true when the loaded document has no
  entry for the workspace and path. When the cache file holds the text \<open>null\<close>, the
  value loaded is \<open>null\<close>, which has no entry for any workspace and path, and the call
  does not return true: it throws a \<open>TypeError\<close>, whatever the file on the disk.
\<close>

theorem hasFileChanged_throws_on_null:
  "readFileHashCache demo_env (demo_world demo_single (Contents ''null'')) = Inr ParsedNull \<and>
   hasFileChanged demo_env ''w1'' [''a.txt''] None (demo_world demo_single (Contents ''null'')) =
     (Inl TypeError, demo_world demo_single (Contents ''null''))"
  by (simp add: cache_simps demo_simps)

text \<open>
  Claim C9. A content that is supplied but is the empty string is treated as not
  supplied: \<open>calculateFileHash\<close>, \<open>hasFileChanged\<close> and \<open>updateFileHash\<close> then
  behave as they do without content, and the digest is that of the content read from
  the disk. So \<open>calculateFileHash\<close> reads the file and returns the digest of what it
  read; on a document with an entry for the workspace and path, \<open>hasFileChanged\<close>
  reads the file and compares the digest of what it read with the digest stored; and
  on a document, \<open>updateFileHash\<close> reads the file and stores the digest of what it
  read, or fails with the error of the read.
\<close>

theorem empty_content_reads_disk:
  "calculateFileHash E p (Some []) w = calculateFileHash E p None w \<and>
   hasFileChanged E ws p (Some []) w = hasFileChanged E ws p None w \<and>
   updateFileHash E ws p (Some []) w = updateFileHash E ws p None w \<and>
   calculateFileHash E p (Some []) w =
     (map_sum id (md5 E) (fst (fs_readFile p w)), w\<lparr>reads := reads w @ [p]\<rparr>) \<and>
   (\<forall>cache fileCache.
      readFileHashCache E w = Inr (Document cache) \<and> lookupEntry cache ws p = Some fileCache \<longrightarrow>
      hasFileChanged E ws p (Some []) w =
        (Inr (case fst (fs_readFile p w) of
                Inl e \<Rightarrow> True
              | Inr data \<Rightarrow> md5 E data \<noteq> hash fileCache),
         w\<lparr>reads := reads w @ [p]\<rparr>)) \<and>
   (\<forall>cache.
      readFileHashCache E w = Inr (Document cache) \<longrightarrow>
      updateFileHash E ws p (Some []) w =
        (case fst (fs_readFile p w) of
           Inl e \<Rightarrow> (Inl e, w\<lparr>reads := reads w @ [p]\<rparr>)
         | Inr data \<Rightarrow>
             (Inr (),
              if fileHashCachePath w \<noteq> [] \<and> cacheWritable w
              then w\<lparr>reads := reads w @ [p],
                     cacheFile :=
                       Contents (JSON_stringify E
                         (setEntry cache ws p \<lparr>hash = md5 E data, timestamp = now w\<rparr>))\<rparr>
              else w\<lparr>reads := reads w @ [p]\<rparr>)))"
proof -
  have 1: "calculateFileHash E p (Some []) w = calculateFileHash E p None w"
    by (simp add: calculateFileHash_def contentOrRead_def truthy_def)
  have 2: "calculateFileHash E p None w =
     (map_sum id (md5 E) (fst (fs_readFile p w)), w\<lparr>reads := reads w @ [p]\<rparr>)"
    by (simp add: calculateFileHash_def contentOrRead_def fs_readFile_def
        split: prod.splits sum.splits)
  have 3: "hasFileChanged E ws p (Some []) w = hasFileChanged E ws p None w"
    unfolding hasFileChanged_def 1 by simp
  have 4: "updateFileHash E ws p (Some []) w = updateFileHash E ws p None w"
    unfolding updateFileHash_def 1 by simp
  have 5: "hasFileChanged E ws p (Some []) w =
        (Inr (case fst (fs_readFile p w) of
                Inl e \<Rightarrow> True
              | Inr data \<Rightarrow> md5 E data \<noteq> hash fileCache),
         w\<lparr>reads := reads w @ [p]\<rparr>)"
    if "readFileHashCache E w = Inr (Document cache) \<and> lookupEntry cache ws p = Some fileCache"
    for cache fileCache
    using that unfolding hasFileChanged_def 1 2
    by (simp split: sum.splits)
  have 6: "updateFileHash E ws p (Some []) w =
        (case fst (fs_readFile p w) of
           Inl e \<Rightarrow> (Inl e, w\<lparr>reads := reads w @ [p]\<rparr>)
         | Inr data \<Rightarrow>
             (Inr (),
              if fileHashCachePath w \<noteq> [] \<and> cacheWritable w
              then w\<lparr>reads := reads w @ [p],
                     cacheFile :=
                       Contents (JSON_stringify E
                         (setEntry cache ws p \<lparr>hash = md5 E data, timestamp = now w\<rparr>))\<rparr>
              else w\<lparr>reads := reads w @ [p]\<rparr>))"
    if "readFileHashCache E w = Inr (Document cache)" for cache
    using that unfolding updateFileHash_def 1 2
    by (simp add: writeFileHashCache_def cache_replace_def try_catch_def split: sum.splits)
  show ?thesis using 1 2 3 4 5 6 by (simp only:) blast
qed

theorem empty_content_reads_disk_witness:
  \<open>calculateFileHash demo_env [''a.txt''] (Some []) (demo_world demo_single NoFile) =
     (Inr ''md5:hello'', (demo_world demo_single NoFile)\<lparr>reads := [[''a.txt'']]\<rparr>) \<and>
   hasFileChanged demo_env ''w1'' [''a.txt''] (Some [])
       (demo_world demo_single
          (Contents ''{"w1":{"/a.txt":{"hash":"md5:hello","timestamp":100}}}'')) =
     (Inr False,
      (demo_world demo_single
         (Contents ''{"w1":{"/a.txt":{"hash":"md5:hello","timestamp":100}}}''))
        \<lparr>reads := [[''a.txt'']]\<rparr>) \<and>
   updateFileHash demo_env ''w1'' [''a.txt''] (Some [])
       (demo_world demo_single
          (Contents ''{"w1":{"/a.txt":{"hash":"stale","timestamp":10}}}'')) =
     (Inr (),
      (demo_world demo_single
         (Contents ''{"w1":{"/a.txt":{"hash":"md5:hello","timestamp":100}}}''))
        \<lparr>reads := [[''a.txt'']]\<rparr>)\<close>
proof -
  let ?fresh = \<open>[(''w1'', [([''a.txt''], \<lparr>hash = ''md5:hello'', timestamp = 100\<rparr>)])]\<close>
  let ?stale = \<open>[(''w1'', [([''a.txt''], \<lparr>hash = ''stale'', timestamp = 10\<rparr>)])]\<close>
  let ?wf = \<open>demo_world demo_single
               (Contents ''{"w1":{"/a.txt":{"hash":"md5:hello","timestamp":100}}}'')\<close>
  let ?ws = \<open>demo_world demo_single
               (Contents ''{"w1":{"/a.txt":{"hash":"stale","timestamp":10}}}'')\<close>
  have rf: "readFileHashCache demo_env ?wf = Inr (Document ?fresh)"
    by (simp add: cache_simps demo_simps)
  have rs: "readFileHashCache demo_env ?ws = Inr (Document ?stale)"
    by (simp add: cache_simps demo_simps)
  have lf: "lookupEntry ?fresh ''w1'' [''a.txt''] = Some \<lparr>hash = ''md5:hello'', timestamp = 100\<rparr>"
    by (simp add: lookupEntry_def workspaceOf_def)
  have d: "fst (fs_readFile [''a.txt''] (demo_world demo_single f)) = Inr ''hello''" for f
    by (simp add: fs_readFile_def demo_simps)
  have 1: "calculateFileHash demo_env [''a.txt''] (Some []) (demo_world demo_single NoFile) =
     (Inr ''md5:hello'', (demo_world demo_single NoFile)\<lparr>reads := [[''a.txt'']]\<rparr>)"
    using empty_content_reads_disk
      [where E = demo_env and p = "[''a.txt'']" and w = "demo_world demo_single NoFile"
         and ws = "''w1''", THEN conjunct2, THEN conjunct2, THEN conjunct2, THEN conjunct1]
    by (simp add: d) (simp add: demo_simps)
  have 2: "hasFileChanged demo_env ''w1'' [''a.txt''] (Some []) ?wf =
     (Inr False, ?wf\<lparr>reads := [[''a.txt'']]\<rparr>)"
    using empty_content_reads_disk
      [where E = demo_env and p = "[''a.txt'']" and w = ?wf and ws = "''w1''",
         THEN conjunct2, THEN conjunct2, THEN conjunct2, THEN conjunct2, THEN conjunct1,
         rule_format, OF conjI, OF rf lf]
    by (simp add: d) (simp add: demo_simps)
  have 3: "updateFileHash demo_env ''w1'' [''a.txt''] (Some []) ?ws =
     (Inr (), ?wf\<lparr>reads := [[''a.txt'']]\<rparr>)"
    using empty_content_reads_disk
      [where E = demo_env and p = "[''a.txt'']" and w = ?ws and ws = "''w1''",
         THEN conjunct2, THEN conjunct2, THEN conjunct2, THEN conjunct2, THEN conjunct2,
         rule_format, OF rs]
    by (simp add: d) (simp add: demo_simps setEntry_def workspaceOf_def)
  show ?thesis using 1 2 3 by simp
qed

subsection \<open>The staleness sweep\<close>

lemma map_of_filter_val:
  "distinct (map fst xs) \<Longrightarrow>
   map_of (filter (\<lambda>(k, v). P v) xs) k =
     (case map_of xs k of None \<Rightarrow> None | Some v \<Rightarrow> if P v then Some v else None)"
  by (induction xs) (auto split: option.splits simp: map_of_eq_None_iff)

lemma sweepWorkspace_filter:
  "sweepWorkspace t m wc =
     (filter (\<lambda>(p, e). \<not> t - timestamp e > m) wc,
      length (filter (\<lambda>(p, e). t - timestamp e > m) wc))"
  by (induction wc) auto

lemma sweepWorkspace_lookup:
  "distinct (map fst wc) \<Longrightarrow>
   map_of (fst (sweepWorkspace t m wc)) p =
     (case map_of wc p of
        None \<Rightarrow> None
      | Some e \<Rightarrow> if t - timestamp e > m then None else Some e)"
  by (simp add: sweepWorkspace_filter map_of_filter_val split: option.splits)

lemma sweepWorkspace_removed:
  "0 < snd (sweepWorkspace t m wc) \<longleftrightarrow> (\<exists>x \<in> set wc. t - timestamp (snd x) > m)"
  by (force simp: sweepWorkspace_filter filter_empty_conv)

lemma sweepCache_Cons:
  "sweepCache t m ((k, wc) # cache) =
     ((if fst (sweepWorkspace t m wc) = [] then fst (sweepCache t m cache)
       else (k, fst (sweepWorkspace t m wc)) # fst (sweepCache t m cache)),
      snd (sweepWorkspace t m wc) + snd (sweepCache t m cache))"
  by (simp split: prod.splits)

lemma sweepCache_keys:
  "(k, v) \<in> set (fst (sweepCache t m cache)) \<Longrightarrow> k \<in> fst ` set cache"
proof (induction cache)
  case Nil
  then show ?case by simp
next
  case (Cons a cache)
  obtain k' wc where a: "a = (k', wc)" by (cases a)
  from Cons.prems have
    "(k, v) = (k', fst (sweepWorkspace t m wc)) \<or> (k, v) \<in> set (fst (sweepCache t m cache))"
    unfolding a sweepCache_Cons by (simp split: if_splits)
  then show ?case using Cons.IH by (auto simp: a)
qed

lemma sweepCache_nonempty:
  "(k, v) \<in> set (fst (sweepCache t m cache)) \<Longrightarrow> v \<noteq> []"
proof (induction cache)
  case Nil
  then show ?case by simp
next
  case (Cons a cache)
  obtain k' wc where a: "a = (k', wc)" by (cases a)
  from Cons.prems have
    "((k, v) = (k', fst (sweepWorkspace t m wc)) \<and> fst (sweepWorkspace t m wc) \<noteq> []) \<or>
     (k, v) \<in> set (fst (sweepCache t m cache))"
    unfolding a sweepCache_Cons by (simp split: if_splits)
  then show ?case using Cons.IH by auto
qed

lemma sweepCache_lookup:
  "wf_cache cache \<Longrightarrow>
   lookupEntry (fst (sweepCache t m cache)) ws p =
     (case lookupEntry cache ws p of
        None \<Rightarrow> None
      | Some e \<Rightarrow> if t - timestamp e > m then None else Some e)"
proof (induction cache)
  case Nil
  then show ?case by (simp add: lookupEntry_def workspaceOf_def)
next
  case (Cons a cache)
  obtain k wc where a: "a = (k, wc)" by (cases a)
  define wc' where "wc' = fst (sweepWorkspace t m wc)"
  define rest' where "rest' = fst (sweepCache t m cache)"
  from Cons.prems have wf: "wf_cache cache" and dwc: "distinct (map fst wc)"
    and knot: "k \<notin> fst ` set cache"
    by (auto simp: wf_cache_def a)
  have IH: "lookupEntry rest' ws p =
     (case lookupEntry cache ws p of
        None \<Rightarrow> None
      | Some e \<Rightarrow> if t - timestamp e > m then None else Some e)"
    using Cons.IH [OF wf] by (simp add: rest'_def)
  have wc': "map_of wc' p =
     (case map_of wc p of
        None \<Rightarrow> None
      | Some e \<Rightarrow> if t - timestamp e > m then None else Some e)"
    using sweepWorkspace_lookup [OF dwc, of t m p] by (simp add: wc'_def)
  have res: "fst (sweepCache t m (a # cache)) = (if wc' = [] then rest' else (k, wc') # rest')"
    unfolding a sweepCache_Cons wc'_def rest'_def by simp
  show ?case
  proof (cases "ws = k")
    case True
    have "k \<notin> fst ` set rest'"
      using sweepCache_keys [of _ _ t m cache] knot by (auto simp: rest'_def)
    then have none: "map_of rest' k = None" by (simp add: map_of_eq_None_iff)
    have l: "lookupEntry (fst (sweepCache t m (a # cache))) ws p = map_of wc' p"
      unfolding res using True none
      by (cases "wc' = []") (simp_all add: lookupEntry_def workspaceOf_def)
    have r: "lookupEntry (a # cache) ws p = map_of wc p"
      using True by (simp add: a lookupEntry_def workspaceOf_def)
    show ?thesis unfolding l r by (rule wc')
  next
    case False
    have l: "lookupEntry (fst (sweepCache t m (a # cache))) ws p = lookupEntry rest' ws p"
      unfolding res using False by (simp add: lookupEntry_def workspaceOf_def)
    have r: "lookupEntry (a # cache) ws p = lookupEntry cache ws p"
      using False by (simp add: a lookupEntry_def workspaceOf_def)
    show ?thesis unfolding l r by (rule IH)
  qed
qed

lemma sweepCache_removed:
  "0 < snd (sweepCache t m cache) \<longleftrightarrow>
     (\<exists>x \<in> set cache. \<exists>y \<in> set (snd x). t - timestamp (snd y) > m)"
proof (induction cache)
  case Nil
  then show ?case by simp
next
  case (Cons a cache)
  obtain k wc where a: "a = (k, wc)" by (cases a)
  have "0 < snd (sweepCache t m (a # cache)) \<longleftrightarrow>
        0 < snd (sweepWorkspace t m wc) \<or> 0 < snd (sweepCache t m cache)"
    unfolding a sweepCache_Cons by auto
  then show ?case using Cons.IH sweepWorkspace_removed [of t m wc]
    by (simp add: a)
qed

lemma entry_in_iff:
  assumes wf: "wf_cache cache"
  shows "(\<exists>x \<in> set cache. \<exists>y \<in> set (snd x). Q (snd y)) \<longleftrightarrow>
         (\<exists>ws p e. lookupEntry cache ws p = Some e \<and> Q e)"
proof
  assume "\<exists>x \<in> set cache. \<exists>y \<in> set (snd x). Q (snd y)"
  then obtain ws wc p e where 1: "(ws, wc) \<in> set cache" "(p, e) \<in> set wc" "Q e" by auto
  from wf 1 have c: "map_of cache ws = Some wc" by (auto simp: wf_cache_def)
  from wf 1 have "distinct (map fst wc)" by (auto simp: wf_cache_def list_all_iff)
  then have "map_of wc p = Some e" using 1 by simp
  then have "lookupEntry cache ws p = Some e"
    using c by (simp add: lookupEntry_def workspaceOf_def)
  then show "\<exists>ws p e. lookupEntry cache ws p = Some e \<and> Q e"
    using 1 by blast
next
  assume "\<exists>ws p e. lookupEntry cache ws p = Some e \<and> Q e"
  then obtain ws p e where 1: "lookupEntry cache ws p = Some e" "Q e" by auto
  then obtain wc where "map_of cache ws = Some wc" "map_of wc p = Some e"
    by (auto simp: lookupEntry_def workspaceOf_def split: option.splits)
  then have "(ws, wc) \<in> set cache" "(p, e) \<in> set wc" by (auto dest: map_of_SomeD)
  with 1 show "\<exists>x \<in> set cache. \<exists>y \<in> set (snd x). Q (snd y)" by force
qed

text \<open>
  Claim C3, as the code has it. Let the loaded document have distinct keys. The
  document that \<open>cleanupFileHashCache\<close> ends with holds exactly the entries of the
  loaded document whose age \<open>now - timestamp\<close> is at most \<open>maxAgeMs\<close>, unchanged, and
  it has no workspace with an empty mapping. That document is written to the cache
  file only if at least one entry was removed (and the cache path is set and the file
  can be written); otherwise the world, and with it the cache file, is left as it was.
\<close>

theorem cleanupFileHashCache_sweeps:
  assumes "readFileHashCache E w = Inr (Document cache)" and "wf_cache cache"
  shows "(\<forall>ws p.
            lookupEntry (fst (sweepCache (now w) maxAgeMs cache)) ws p =
              (case lookupEntry cache ws p of
                 None \<Rightarrow> None
               | Some fileCache \<Rightarrow>
                   if now w - timestamp fileCache > maxAgeMs then None else Some fileCache)) \<and>
         list_all (\<lambda>(ws, workspaceCache). workspaceCache \<noteq> [])
           (fst (sweepCache (now w) maxAgeMs cache)) \<and>
         cleanupFileHashCache E maxAgeMs w =
           (Inr (),
            if (\<exists>ws p fileCache.
                  lookupEntry cache ws p = Some fileCache \<and>
                  now w - timestamp fileCache > maxAgeMs)
               \<and> fileHashCachePath w \<noteq> [] \<and> cacheWritable w
            then w\<lparr>cacheFile :=
                     Contents (JSON_stringify E (fst (sweepCache (now w) maxAgeMs cache)))\<rparr>
            else w)"
proof (intro conjI allI)
  fix ws p
  show "lookupEntry (fst (sweepCache (now w) maxAgeMs cache)) ws p =
              (case lookupEntry cache ws p of
                 None \<Rightarrow> None
               | Some fileCache \<Rightarrow>
                   if now w - timestamp fileCache > maxAgeMs then None else Some fileCache)"
    by (rule sweepCache_lookup [OF assms(2)])
next
  show "list_all (\<lambda>(ws, workspaceCache). workspaceCache \<noteq> [])
           (fst (sweepCache (now w) maxAgeMs cache))"
    using sweepCache_nonempty [of _ _ "now w" maxAgeMs cache]
    by (auto simp: list_all_iff)
next
  obtain cache' n where s: "sweepCache (now w) maxAgeMs cache = (cache', n)"
    by (cases "sweepCache (now w) maxAgeMs cache")
  have "0 < n \<longleftrightarrow> (\<exists>ws p fileCache.
                  lookupEntry cache ws p = Some fileCache \<and>
                  now w - timestamp fileCache > maxAgeMs)"
    using sweepCache_removed [of "now w" maxAgeMs cache]
      entry_in_iff [OF assms(2), of "\<lambda>e. now w - timestamp e > maxAgeMs"] s
    by simp
  then show "cleanupFileHashCache E maxAgeMs w =
           (Inr (),
            if (\<exists>ws p fileCache.
                  lookupEntry cache ws p = Some fileCache \<and>
                  now w - timestamp fileCache > maxAgeMs)
               \<and> fileHashCachePath w \<noteq> [] \<and> cacheWritable w
            then w\<lparr>cacheFile :=
                     Contents (JSON_stringify E (fst (sweepCache (now w) maxAgeMs cache)))\<rparr>
            else w)"
    using assms(1) s
    by (auto simp: cleanupFileHashCache_def writeFileHashCache_def try_catch_def cache_replace_def)
qed

theorem cleanupFileHashCache_sweeps_witness:
  \<open>cleanupFileHashCache demo_env 50
     (demo_world demo_single
        (Contents ''{"w1":{"/a.txt":{"hash":"h1","timestamp":10},"/b.txt":{"hash":"h2","timestamp":90}},"w2":{"/c.txt":{"hash":"h3","timestamp":20}}}'')) =
     (Inr (), demo_world demo_single (Contents ''{"w1":{"/b.txt":{"hash":"h2","timestamp":90}}}''))\<close>
proof -
  let ?cache = "[(''w1'', [([''a.txt''], \<lparr>hash = ''h1'', timestamp = 10\<rparr>),
                           ([''b.txt''], \<lparr>hash = ''h2'', timestamp = 90\<rparr>)]),
                 (''w2'', [([''c.txt''], \<lparr>hash = ''h3'', timestamp = 20\<rparr>)])]"
  let ?w = \<open>demo_world demo_single
        (Contents ''{"w1":{"/a.txt":{"hash":"h1","timestamp":10},"/b.txt":{"hash":"h2","timestamp":90}},"w2":{"/c.txt":{"hash":"h3","timestamp":20}}}'')\<close>
  have r: "readFileHashCache demo_env ?w = Inr (Document ?cache)"
    by (simp add: cache_simps demo_simps)
  have wf: "wf_cache ?cache" by (simp add: wf_cache_def)
  have ex: "\<exists>ws p fileCache.
              lookupEntry ?cache ws p = Some fileCache \<and> now ?w - timestamp fileCache > 50"
    by (rule exI [of _ "''w1''"], rule exI [of _ "[''a.txt'']"])
      (simp add: lookupEntry_def workspaceOf_def demo_world_def)
  have "cleanupFileHashCache demo_env 50 ?w =
          (Inr (), ?w\<lparr>cacheFile :=
              Contents (JSON_stringify demo_env (fst (sweepCache (now ?w) 50 ?cache)))\<rparr>)"
    using cleanupFileHashCache_sweeps [OF r wf, of 50] ex
    by (simp add: demo_world_def)
  then show ?thesis
    by (simp add: demo_simps)
qed

text \<open>
  The claim as stated fails on a document that already holds an empty workspace and no
  old entry: nothing is removed, so nothing is saved, and the persisted document still
  holds the empty workspace.
\<close>

theorem cleanupFileHashCache_keeps_empty_workspace:
  \<open>fst (cleanupFileHashCache demo_env 50 (demo_world demo_single (Contents ''{"w1":{}}''))) =
     Inr () \<and>
   readFileHashCache demo_env
      (snd (cleanupFileHashCache demo_env 50
              (demo_world demo_single (Contents ''{"w1":{}}'')))) =
     Inr (Document [(''w1'', [])])\<close>
  by (simp add: cleanupFileHashCache_def cache_simps demo_simps)

section \<open>Properties of the crawler\<close>

subsection \<open>Path enumeration\<close>

lemma reached_file:
  "\<not> isExcluded mm spec exc (relPathOf rootDir useRel (cur @ [item])) \<Longrightarrow>
   reached mm spec exc rootDir useRel cur
     \<lparr>pendingPath = cur @ [item], relativePath = relPathOf rootDir useRel (cur @ [item])\<rparr>"
  unfolding reached_def
  by (rule exI [of _ "[item]"]) auto

lemma reached_step:
  assumes "reached mm spec exc rootDir useRel (cur @ [item]) f"
    and "\<not> isExcluded mm spec exc (relPathOf rootDir useRel (cur @ [item]))"
  shows "reached mm spec exc rootDir useRel cur f"
proof -
  from assms(1) obtain suffix where s: "suffix \<noteq> []" "pendingPath f = (cur @ [item]) @ suffix"
    "relativePath f = relPathOf rootDir useRel (pendingPath f)"
    "\<And>k. 0 < k \<Longrightarrow> k \<le> length suffix \<Longrightarrow>
           \<not> isExcluded mm spec exc (relPathOf rootDir useRel ((cur @ [item]) @ take k suffix))"
    unfolding reached_def by blast
  have "\<not> isExcluded mm spec exc (relPathOf rootDir useRel (cur @ take k (item # suffix)))"
    if "0 < k" "k \<le> length (item # suffix)" for k
  proof (cases k)
    case 0
    then show ?thesis using that by simp
  next
    case (Suc j)
    show ?thesis
    proof (cases j)
      case 0
      then show ?thesis using Suc assms(2) by simp
    next
      case (Suc i)
      then show ?thesis using \<open>k = Suc j\<close> s(4)[of j] that by simp
    qed
  qed
  then show ?thesis
    unfolding reached_def using s(2,3)
    by (intro exI [of _ "item # suffix"]) auto
qed

lemma collect_reached:
  "collectFilePaths mm spec inc exc rootDir cur useRel node acc = Inr out \<Longrightarrow>
     \<exists>new. out = acc @ new \<and> (\<forall>f \<in> set new. reached mm spec exc rootDir useRel cur f)"
  "collectItems mm spec inc exc rootDir cur useRel items acc = Inr out \<Longrightarrow>
     \<exists>new. out = acc @ new \<and> (\<forall>f \<in> set new. reached mm spec exc rootDir useRel cur f)"
proof (induction mm spec inc exc rootDir cur useRel node acc
    and mm spec inc exc rootDir cur useRel items acc
    arbitrary: out and out
    rule: collectFilePaths_collectItems.induct)
  case (7 mm spec inc exc rootDir cur useRel item stats rest acc)
  let ?itemPath = "cur @ [item]"
  let ?rel = "relPathOf rootDir useRel ?itemPath"
  let ?ex = "isExcluded mm spec exc ?rel"
  from "7.prems" have ns: "stats \<noteq> Unstatable"
    by (auto simp: Let_def split: if_splits)
  note IH = "7.IH" [OF refl ns refl refl, unfolded path_join_def, folded relPathOf_def]
  show ?case
  proof (cases "isDirectory stats \<and> \<not> ?ex")
    case True
    from "7.prems" True ns obtain mid where
      m1: "collectFilePaths mm spec inc exc rootDir ?itemPath useRel stats acc = Inr mid"
      and m2: "collectItems mm spec inc exc rootDir cur useRel rest mid = Inr out"
      by (auto simp: Let_def path_join_def relPathOf_def split: sum.splits)
    from IH(1)[OF _ m1] True
    obtain new1 where n1: "mid = acc @ new1"
      "\<forall>f \<in> set new1. reached mm spec exc rootDir useRel ?itemPath f"
      by (auto simp: path_join_def relPathOf_def)
    from IH(2)[OF _ m1 m2] True
    obtain new2 where n2: "out = mid @ new2"
      "\<forall>f \<in> set new2. reached mm spec exc rootDir useRel cur f"
      by (auto simp: path_join_def relPathOf_def)
    have "\<forall>f \<in> set new1. reached mm spec exc rootDir useRel cur f"
      using n1(2) True reached_step by blast
    then show ?thesis using n1 n2 by (intro exI [of _ "new1 @ new2"]) auto
  next
    case False
    note nd = False
    show ?thesis
    proof (cases "\<not> isFile stats \<or> ?ex")
      case True
      from "7.prems" nd True ns have
        m: "collectItems mm spec inc exc rootDir cur useRel rest acc = Inr out"
        by (auto simp: Let_def path_join_def relPathOf_def split: if_splits)
      from IH(3)[OF _ _ m] nd True
      show ?thesis by (auto simp: path_join_def relPathOf_def)
    next
      case False
      note fl = False
      show ?thesis
      proof (cases "isIncluded mm inc ?rel")
        case False
        from "7.prems" nd fl False ns have
          m: "collectItems mm spec inc exc rootDir cur useRel rest acc = Inr out"
          by (auto simp: Let_def path_join_def relPathOf_def split: if_splits)
        from IH(4)[OF _ _ _ m] nd fl False
        show ?thesis by (auto simp: path_join_def relPathOf_def)
      next
        case True
        let ?f = "\<lparr>pendingPath = ?itemPath, relativePath = ?rel\<rparr>"
        from "7.prems" nd fl True ns have
          m: "collectItems mm spec inc exc rootDir cur useRel rest (acc @ [?f]) = Inr out"
          by (auto simp: Let_def path_join_def relPathOf_def split: if_splits)
        from IH(5)[OF _ _ _ m] nd fl True
        obtain new where n: "out = (acc @ [?f]) @ new"
          "\<forall>f \<in> set new. reached mm spec exc rootDir useRel cur f"
          by (auto simp: path_join_def relPathOf_def)
        have "reached mm spec exc rootDir useRel cur ?f"
          using fl by (intro reached_file) simp
        then show ?thesis using n by (intro exI [of _ "?f # new"]) auto
      qed
    qed
  qed
qed auto

lemma isExcluded_ignored: "ignores relPath \<Longrightarrow> isExcluded mm (Some ignores) exc relPath"
  by (simp add: isExcluded_def)

lemma isExcluded_agree:
  assumes "\<And>p pat. \<not> ignores p \<Longrightarrow> mm' p pat = mm p pat"
  shows "isExcluded mm' (Some ignores) exc relPath = isExcluded mm (Some ignores) exc relPath"
  using assms by (cases "ignores relPath") (auto simp: isExcluded_def list_ex_iff split: option.splits)

lemma isIncluded_agree:
  assumes "\<And>p pat. \<not> ignores p \<Longrightarrow> mm' p pat = mm p pat" and "\<not> ignores relPath"
  shows "isIncluded mm' inc relPath = isIncluded mm inc relPath"
  using assms by (auto simp: isIncluded_def list_ex_iff split: option.splits)

lemma collect_agree:
  assumes agree: "\<And>p pat. \<not> ignores p \<Longrightarrow> mm' p pat = mm p pat"
  shows "spec = Some ignores \<Longrightarrow>
     collectFilePaths mm spec inc exc rootDir cur useRel node acc =
     collectFilePaths mm' spec inc exc rootDir cur useRel node acc"
    and "spec = Some ignores \<Longrightarrow>
     collectItems mm spec inc exc rootDir cur useRel items acc =
     collectItems mm' spec inc exc rootDir cur useRel items acc"
  using agree
proof (induction mm spec inc exc rootDir cur useRel node acc
    and mm spec inc exc rootDir cur useRel items acc
    rule: collectFilePaths_collectItems.induct)
  case (7 mm spec inc exc rootDir cur useRel item stats rest acc)
  let ?itemPath = "cur @ [item]"
  let ?rel = "relPathOf rootDir useRel ?itemPath"
  let ?ex = "isExcluded mm spec exc ?rel"
  have ag: "\<And>p pat. \<not> ignores p \<Longrightarrow> mm' p pat = mm p pat" by (rule "7.prems"(2))
  have sp: "spec = Some ignores" by (rule "7.prems"(1))
  have ex: "isExcluded mm' spec exc ?rel = ?ex"
    unfolding sp using isExcluded_agree [of ignores mm' mm exc "?rel"] ag by blast
  show ?case
  proof (cases "stats = Unstatable")
    case True
    then show ?thesis by (simp add: Let_def)
  next
    case ns: False
    note IH = "7.IH" [OF refl ns refl refl, unfolded path_join_def, folded relPathOf_def]
    show ?thesis
    proof (cases "isDirectory stats \<and> \<not> ?ex")
      case True
      have 1: "collectFilePaths mm spec inc exc rootDir ?itemPath useRel stats acc =
               collectFilePaths mm' spec inc exc rootDir ?itemPath useRel stats acc"
        using IH(1)[OF True sp ag] by simp
      have 2: "collectItems mm spec inc exc rootDir cur useRel rest mid =
               collectItems mm' spec inc exc rootDir cur useRel rest mid"
        if "collectFilePaths mm spec inc exc rootDir ?itemPath useRel stats acc = Inr mid" for mid
        using IH(2)[OF True that sp ag] by simp
      show ?thesis using True ns ex 1 2
        by (auto simp: Let_def path_join_def relPathOf_def split: sum.splits)
    next
      case nd: False
      show ?thesis
      proof (cases "\<not> isFile stats \<or> ?ex")
        case True
        have "collectItems mm spec inc exc rootDir cur useRel rest acc =
              collectItems mm' spec inc exc rootDir cur useRel rest acc"
          using IH(3)[OF nd True sp ag] by simp
        then show ?thesis using nd True ns ex
          by (auto simp: Let_def path_join_def relPathOf_def)
      next
        case fl: False
        then have ni: "\<not> ignores ?rel" using sp isExcluded_ignored by auto
        have inc: "isIncluded mm' inc ?rel = isIncluded mm inc ?rel"
          using isIncluded_agree [of ignores mm' mm "?rel" inc] ag ni by blast
        show ?thesis
        proof (cases "isIncluded mm inc ?rel")
          case False
          have "collectItems mm spec inc exc rootDir cur useRel rest acc =
                collectItems mm' spec inc exc rootDir cur useRel rest acc"
            using IH(4)[OF nd fl _ sp ag] False by simp
          then show ?thesis using nd fl False ns ex inc
            by (auto simp: Let_def path_join_def relPathOf_def)
        next
          case True
          let ?f = "\<lparr>pendingPath = ?itemPath, relativePath = ?rel\<rparr>"
          have "collectItems mm spec inc exc rootDir cur useRel rest (acc @ [?f]) =
                collectItems mm' spec inc exc rootDir cur useRel rest (acc @ [?f])"
            using IH(5)[OF nd fl _ sp ag] True by simp
          then show ?thesis using nd fl True ns ex inc
            by (auto simp: Let_def path_join_def relPathOf_def)
        qed
      qed
    qed
  qed
qed auto

lemma collectItems_skip_excluded_dir:
  assumes "isDirectory stats"
    and "isExcluded mm spec exc
           (if useRel then path_relative rootDir (path_join cur item) else path_join cur item)"
  shows "collectItems mm spec inc exc rootDir cur useRel ((item, stats) # rest) acc =
         collectItems mm spec inc exc rootDir cur useRel rest acc"
  using assms by (cases stats) (auto simp: Let_def)

lemma reached_ancestors:
  assumes "reached mm spec exc rootDir useRel rootDir f"
  shows "list_all (\<lambda>d. \<not> isExcluded mm spec exc (relPathOf rootDir useRel d))
           (ancestorDirs rootDir (pendingPath f))
         \<and> \<not> isExcluded mm spec exc (relativePath f)"
proof -
  from assms obtain suffix where s: "suffix \<noteq> []" "pendingPath f = rootDir @ suffix"
    "relativePath f = relPathOf rootDir useRel (pendingPath f)"
    "\<And>k. 0 < k \<Longrightarrow> k \<le> length suffix \<Longrightarrow>
           \<not> isExcluded mm spec exc (relPathOf rootDir useRel (rootDir @ take k suffix))"
    unfolding reached_def by blast
  have "\<not> isExcluded mm spec exc (relPathOf rootDir useRel (take k (pendingPath f)))"
    if "Suc (length rootDir) \<le> k" "k < length (pendingPath f)" for k
  proof -
    have "take k (pendingPath f) = rootDir @ take (k - length rootDir) suffix"
      using that s(2) by simp
    then show ?thesis using s(4)[of "k - length rootDir"] that s(2) by simp
  qed
  moreover have "\<not> isExcluded mm spec exc (relativePath f)"
    using s(4)[of "length suffix"] s(1,2,3) by simp
  ultimately show ?thesis
    by (auto simp: ancestorDirs_def list_all_iff)
qed

lemma reached_not_excluded:
  assumes "reached mm spec exc rootDir useRel cur f"
  shows "\<not> isExcluded mm spec exc (relativePath f)"
proof -
  from assms obtain suffix where s: "suffix \<noteq> []" "pendingPath f = cur @ suffix"
    "relativePath f = relPathOf rootDir useRel (pendingPath f)"
    "\<And>k. 0 < k \<Longrightarrow> k \<le> length suffix \<Longrightarrow>
           \<not> isExcluded mm spec exc (relPathOf rootDir useRel (cur @ take k suffix))"
    unfolding reached_def by blast
  show ?thesis using s(4)[of "length suffix"] s(1,2,3) by simp
qed


text \<open>
  Claim C6. When ignore rules are loaded, exclusion is decided by them first: a path
  that an ignore rule matches is excluded whatever the exclusion and inclusion globs
  say, the globs are consulted only for paths that no ignore rule matches (the list of
  candidates does not depend on what the glob matcher answers for an ignored path),
  and so no candidate has a relative path that an ignore rule matches.
\<close>

theorem ignore_rules_take_precedence:
  assumes "collectFilePaths mm (Some ignores) inc exc rootDir cur useRel node [] = Inr pendingFiles"
  shows "(\<forall>f \<in> set pendingFiles. \<not> ignores (relativePath f)) \<and>
         (\<forall>relPath. ignores relPath \<longrightarrow> isExcluded mm (Some ignores) exc relPath) \<and>
         (\<forall>mm'. (\<forall>relPath pattern. \<not> ignores relPath \<longrightarrow> mm' relPath pattern = mm relPath pattern) \<longrightarrow>
            collectFilePaths mm' (Some ignores) inc exc rootDir cur useRel node [] =
              Inr pendingFiles)"
proof (intro conjI allI impI ballI)
  fix f assume "f \<in> set pendingFiles"
  with collect_reached(1) [OF assms] have "reached mm (Some ignores) exc rootDir useRel cur f"
    by auto
  then have "\<not> isExcluded mm (Some ignores) exc (relativePath f)"
    by (rule reached_not_excluded)
  then show "\<not> ignores (relativePath f)"
    using isExcluded_ignored by blast
next
  fix relPath assume "ignores relPath"
  then show "isExcluded mm (Some ignores) exc relPath" by (rule isExcluded_ignored)
next
  fix mm' :: "path \<Rightarrow> string \<Rightarrow> bool"
  assume a: "\<forall>relPath pattern. \<not> ignores relPath \<longrightarrow> mm' relPath pattern = mm relPath pattern"
  have "collectFilePaths mm (Some ignores) inc exc rootDir cur useRel node [] =
        collectFilePaths mm' (Some ignores) inc exc rootDir cur useRel node []"
    using collect_agree(1) [of ignores mm' mm "Some ignores"] a by blast
  then show "collectFilePaths mm' (Some ignores) inc exc rootDir cur useRel node [] = Inr pendingFiles"
    using assms by simp
qed

theorem ignore_rules_take_precedence_witness:
  "collectFilePaths (minimatch demo_env) (Some (ignore_add demo_env [''b.txt'']))
      (Some [''a.txt'', ''b.txt'']) (Some [''node_modules'']) [] [] True demo_tree [] =
     Inr [\<lparr>pendingPath = [''a.txt''], relativePath = [''a.txt'']\<rparr>] \<and>
   ignore_add demo_env [''b.txt''] [''b.txt''] \<and>
   isIncluded (minimatch demo_env) (Some [''a.txt'', ''b.txt'']) [''b.txt''] \<and>
   isExcluded (minimatch demo_env) (Some (ignore_add demo_env [''b.txt''])) (Some [''node_modules''])
     [''b.txt'']"
proof -
  have c: "collectFilePaths (minimatch demo_env) (Some (ignore_add demo_env [''b.txt'']))
      (Some [''a.txt'', ''b.txt'']) (Some [''node_modules'']) [] [] True demo_tree [] =
     Inr [\<lparr>pendingPath = [''a.txt''], relativePath = [''a.txt'']\<rparr>]"
    by (simp add: demo_tree_def demo_env_def isExcluded_def isIncluded_def path_join_def
        path_relative_def Let_def)
  have i: "ignore_add demo_env [''b.txt''] [''b.txt'']" by (simp add: demo_env_def)
  have n: "isIncluded (minimatch demo_env) (Some [''a.txt'', ''b.txt'']) [''b.txt'']"
    by (simp add: demo_env_def isIncluded_def)
  show ?thesis
    using ignore_rules_take_precedence [OF c] c i n by blast
qed


lemma collect_error:
  "collectFilePaths mm spec inc exc rootDir cur useRel node acc = Inl e \<Longrightarrow> e = IOError"
  "collectItems mm spec inc exc rootDir cur useRel items acc = Inl e \<Longrightarrow> e = IOError"
proof (induction mm spec inc exc rootDir cur useRel node acc
    and mm spec inc exc rootDir cur useRel items acc
    rule: collectFilePaths_collectItems.induct)
  case (7 mm spec inc exc rootDir cur useRel item stats rest acc)
  let ?itemPath = "cur @ [item]"
  let ?rel = "relPathOf rootDir useRel ?itemPath"
  let ?ex = "isExcluded mm spec exc ?rel"
  show ?case
  proof (cases "stats = Unstatable")
    case True
    then show ?thesis using "7.prems" by (simp add: Let_def)
  next
    case ns: False
    note IH = "7.IH" [OF refl ns refl refl, unfolded path_join_def, folded relPathOf_def]
    note P = "7.prems" [unfolded collectItems.simps Let_def path_join_def, folded relPathOf_def]
    show ?thesis
    proof (cases "isDirectory stats \<and> \<not> ?ex")
      case True
      show ?thesis
      proof (cases "collectFilePaths mm spec inc exc rootDir ?itemPath useRel stats acc")
        case (Inl e')
        then have "e' = e" using P True ns by simp
        then show ?thesis using IH(1) [OF True] Inl by simp
      next
        case (Inr mid)
        then have "collectItems mm spec inc exc rootDir cur useRel rest mid = Inl e"
          using P True ns by simp
        then show ?thesis using IH(2) [OF True Inr] by simp
      qed
    next
      case nd: False
      show ?thesis
      proof (cases "\<not> isFile stats \<or> ?ex")
        case True
        then have "collectItems mm spec inc exc rootDir cur useRel rest acc = Inl e"
          using P nd ns by (simp split: if_splits)
        then show ?thesis using IH(3) [OF nd True] by simp
      next
        case fl: False
        show ?thesis
        proof (cases "isIncluded mm inc ?rel")
          case False
          then have "collectItems mm spec inc exc rootDir cur useRel rest acc = Inl e"
            using P nd fl ns by (simp split: if_splits)
          then show ?thesis using IH(4) [OF nd fl] False by simp
        next
          case True
          let ?f = "\<lparr>pendingPath = ?itemPath, relativePath = ?rel\<rparr>"
          have "collectItems mm spec inc exc rootDir cur useRel rest (acc @ [?f]) = Inl e"
            using P nd fl ns True by (simp split: if_splits)
          then show ?thesis using IH(5) [OF nd fl] True by simp
        qed
      qed
    qed
  qed
qed auto

subsection \<open>Reading the candidates\<close>

lemmas crawl_simps =
  fileTask_def fs_stat_def tooLarge_def workspaceName_def readAndRecord_def fs_readFile_def
  callProgress_def loadGitignore_def existsSync_def path_join_def path_relative_def
  isExcluded_def isIncluded_def Let_def batchSize_def map_filter_def

lemma startTasks_fst:
  "map fst (fst (startTasks cb i n batch c)) = batch"
proof (induction batch arbitrary: i c)
  case Nil
  then show ?case by simp
next
  case (Cons a batch)
  obtain thrown c1 where 1: "callProgress cb i n (pendingPath a) c = (thrown, c1)"
    by (cases "callProgress cb i n (pendingPath a) c")
  obtain started c2 where 2: "startTasks cb (Suc i) n batch c1 = (started, c2)"
    by (cases "startTasks cb (Suc i) n batch c1")
  have "map fst started = batch" using Cons.IH [of "Suc i" c1] 2 by simp
  then show ?case using 1 2 by simp
qed

lemma readAndRecord_result:
  "readAndRecord E inc ws f w = (Inr (Some info), w') \<Longrightarrow> infoPath info = relativePath f"
  unfolding readAndRecord_def
  by (auto split: prod.splits sum.splits if_splits)

lemma fileTask_result:
  assumes "fileTask E m inc ws f st = (Inr (Some info), st')"
  shows "infoPath info = relativePath f"
proof -
  obtain w n where st: "st = (w, n)" by (cases st)
  from assms have "\<exists>w0 w1. readAndRecord E inc ws f w0 = (Inr (Some info), w1)"
    unfolding fileTask_def st
    by (auto split: prod.splits sum.splits if_splits)
  then show ?thesis using readAndRecord_result by blast
qed

lemma finishTasks_results:
  "finishTasks E m inc ws started st = (results, st') \<Longrightarrow>
   \<forall>info. Some info \<in> set results \<longrightarrow> (\<exists>f \<in> fst ` set started. infoPath info = relativePath f)"
proof (induction started arbitrary: st results st')
  case Nil
  then show ?case by simp
next
  case (Cons a started)
  obtain f thrown where a: "a = (f, thrown)" by (cases a)
  define step where "step = (case thrown of
              Some e \<Rightarrow> (None, st)
            | None \<Rightarrow>
                (case fileTask E m inc ws f st of
                   (Inl e, st1) \<Rightarrow> (None, st1)
                 | (Inr r, st1) \<Rightarrow> (r, st1)))"
  obtain r st1 where r: "step = (r, st1)" by (cases step)
  obtain rs st2 where rs: "finishTasks E m inc ws started st1 = (rs, st2)"
    by (cases "finishTasks E m inc ws started st1")
  have res: "results = r # rs"
    using Cons.prems r rs unfolding a step_def by simp
  have 1: "infoPath info = relativePath f" if "r = Some info" for info
  proof -
    from that r have "\<exists>st0. fileTask E m inc ws f st = (Inr (Some info), st0)"
      unfolding step_def by (auto split: option.splits prod.splits sum.splits)
    then show ?thesis using fileTask_result by blast
  qed
  from Cons.IH [OF rs] 1 show ?case unfolding res a by auto
qed

lemma processBatches_files:
  "processBatches E m inc ws cb pending i s = (filesList', st', c') \<Longrightarrow>
   \<forall>info \<in> set filesList'. info \<in> set (fst s) \<or>
      (\<exists>f \<in> set pending. infoPath info = relativePath f)"
proof (induction "length pending - i" arbitrary: i s rule: less_induct)
  case less
  show ?case
  proof (cases "i < length pending")
    case False
    then have "processBatches E m inc ws cb pending i s = s"
      by (subst processBatches.simps) simp
    then show ?thesis using less.prems by auto
  next
    case True
    obtain filesList st c where s: "s = (filesList, st, c)" by (cases s)
    obtain started c1 where st: "startTasks cb i (length pending) (take batchSize (drop i pending)) c = (started, c1)"
      by (cases "startTasks cb i (length pending) (take batchSize (drop i pending)) c")
    obtain results st1 where fi: "finishTasks E m inc ws started st = (results, st1)"
      by (cases "finishTasks E m inc ws started st")
    have "processBatches E m inc ws cb pending i s =
          processBatches E m inc ws cb pending (i + batchSize)
                 (filesList @ List.map_filter id results, st1, c1)"
      by (subst processBatches.simps) (simp add: True s st fi)
    then have rec: "processBatches E m inc ws cb pending (i + batchSize)
                 (filesList @ List.map_filter id results, st1, c1) = (filesList', st', c')"
      using less.prems by simp
    have sub: "fst ` set started \<subseteq> set pending"
    proof -
      have "map fst started = take batchSize (drop i pending)"
        using startTasks_fst [of cb i "length pending" "take batchSize (drop i pending)" c] st by simp
      then have "set (map fst started) \<subseteq> set pending"
        by (simp only:) (meson in_set_dropD in_set_takeD subsetI)
      then show ?thesis by simp
    qed
    have new: "\<forall>info \<in> set (List.map_filter id results). \<exists>f \<in> set pending. infoPath info = relativePath f"
      using finishTasks_results [OF fi] sub by (fastforce simp: map_filter_def)
    have lt: "length pending - (i + batchSize) < length pending - i"
      using True by (simp add: batchSize_def)
    from less.hyps [OF lt rec] new
    show ?thesis unfolding s by auto
  qed
qed

lemma fs_readFile_eq:
  "fs_readFile p w = (fst (fs_readFile p w), w\<lparr>reads := reads w @ [p]\<rparr>)"
  by (simp add: fs_readFile_def)

lemma fs_readFile_reads [simp]:
  "fst (fs_readFile p (w\<lparr>reads := r\<rparr>)) = fst (fs_readFile p w)"
  by (simp add: fs_readFile_def)

lemma cache_file_reads [simp]:
  "cache_access (w\<lparr>reads := r\<rparr>) = cache_access w"
  "cache_readFile (w\<lparr>reads := r\<rparr>) = cache_readFile w"
  by (simp_all add: cache_access_def cache_readFile_def)

lemma readFileHashCache_reads [simp]:
  "readFileHashCache E (w\<lparr>reads := r\<rparr>) = readFileHashCache E w"
  unfolding readFileHashCache_def by (simp cong: sum.case_cong)













lemma crawl_result:
  "crawlLocalFilesAsync E dir inc exc m useRel cb incr ws (w, c) =
     (case fs_stat dir w of
        Inl e \<Rightarrow> (Inl DirectoryDoesNotExist, w, c)
      | Inr dirNode \<Rightarrow>
          if \<not> isDirectory dirNode then (Inl DirectoryDoesNotExist, w, c)
          else
            (case collectFilePaths (minimatch E) (fst (loadGitignore E dir w)) inc exc dir dir
                    useRel dirNode [] of
               Inl e \<Rightarrow> (Inl e, snd (loadGitignore E dir w), c)
             | Inr pendingFiles \<Rightarrow>
                 (case processBatches E m incr
                         (if incr \<and> \<not> truthy ws then Some (path_basename dir) else ws)
                         cb pendingFiles 0 ([], (snd (loadGitignore E dir w), 0), c) of
                    (filesList, (w2, unchangedCount), c2) \<Rightarrow>
                      (Inr \<lparr>files = filesList,
                             unchanged = (if incr then Some unchangedCount else None)\<rparr>,
                       w2, c2))))"
  by (simp add: crawlLocalFilesAsync_def Let_def split: sum.splits prod.splits)

lemma processBatches_single:
  "processBatches E m incr ws cb [f] 0 (filesList, st, c) =
     (case startTasks cb 0 1 [f] c of
        (started, c1) \<Rightarrow>
          (case finishTasks E m incr ws started st of
             (results, st1) \<Rightarrow> (filesList @ List.map_filter id results, st1, c1)))"
proof -
  have stop: "processBatches E m incr ws cb [f] batchSize s = s" for s
    by (subst processBatches.simps) (simp add: batchSize_def)
  have "processBatches E m incr ws cb [f] 0 (filesList, st, c) =
     (case startTasks cb 0 1 [f] c of
        (started, c1) \<Rightarrow>
          (case finishTasks E m incr ws started st of
             (results, st1) \<Rightarrow>
               processBatches E m incr ws cb [f] batchSize
                 (filesList @ List.map_filter id results, st1, c1)))"
    by (subst processBatches.simps) (simp add: batchSize_def)
  then show ?thesis by (simp add: stop)
qed





subsection \<open>The result of a crawl\<close>

lemma crawl_never_NoFilesFound:
  "fst (crawlLocalFilesAsync E dir inc exc m useRel cb incr ws s) \<noteq> Inl NoFilesFound"
proof -
  obtain w c where s: "s = (w, c)" by (cases s)
  show ?thesis
    unfolding s crawl_result
    by (auto split: sum.splits prod.splits dest: collect_error(1))
qed

lemma processBatches_Nil:
  "processBatches E m incr ws cb [] 0 s = s"
  by (subst processBatches.simps) simp

lemma crawl_no_candidates:
  assumes "fs_stat dir w = Inr dirNode" and "isDirectory dirNode"
    and "collectFilePaths (minimatch E) (fst (loadGitignore E dir w)) inc exc dir dir
           useRel dirNode [] = Inr []"
  shows "fst (crawlLocalFilesAsync E dir inc exc m useRel cb incr ws (w, c)) =
           Inr \<lparr>files = [], unchanged = (if incr then Some 0 else None)\<rparr>"
  unfolding crawl_result using assms by (simp add: processBatches_Nil)

lemma exec_NoFilesFound_iff:
  "fst (exec E preRes (w, pm)) = Inl NoFilesFound \<longleftrightarrow>
     (\<exists>pm2 result.
        isCancelled (updateStageProgress 0 pm) = (False, pm2) \<and>
        fst (crawlLocalFilesAsync E (localDir preRes) (storeIncludePatterns preRes)
               (storeExcludePatterns preRes)
               (map_option (\<lambda>kb. kb * 1024) (storeMaxFileSize preRes))
               True (Some scanCallback) False None (w, pm2)) = Inr result \<and>
        files result = [])"
proof -
  obtain b pm2 where c: "isCancelled (updateStageProgress 0 pm) = (b, pm2)"
    by (cases "isCancelled (updateStageProgress 0 pm)")
  obtain r w1 pm3 where r: "crawlLocalFilesAsync E (localDir preRes) (storeIncludePatterns preRes)
               (storeExcludePatterns preRes)
               (map_option (\<lambda>kb. kb * 1024) (storeMaxFileSize preRes))
               True (Some scanCallback) False None (w, pm2) = (r, w1, pm3)"
    by (metis prod_cases3)
  have n: "r \<noteq> Inl NoFilesFound"
    using crawl_never_NoFilesFound [of E "localDir preRes" "storeIncludePatterns preRes"
        "storeExcludePatterns preRes" "map_option (\<lambda>kb. kb * 1024) (storeMaxFileSize preRes)"
        True "Some scanCallback" False None "(w, pm2)"] r by simp
  show ?thesis
  proof (cases b)
    case True
    then show ?thesis using c by (simp add: exec_def Let_def)
  next
    case False
    show ?thesis
    proof (cases r)
      case (Inl e)
      then show ?thesis using c False r n by (simp add: exec_def Let_def)
    next
      case (Inr result)
      then show ?thesis using c False r by (simp add: exec_def Let_def)
    qed
  qed
qed


lemma recordAndReport_token [simp]: "token (recordAndReport q pm) = token pm"
  by (simp add: recordAndReport_def Let_def calculateTotalProgress_def reportProgress_def
      split: option.splits)

text \<open>
  Claim C4, as the code has it. \<open>crawlLocalFilesAsync\<close> never fails for want of
  files: when the root directory exists and no entry survives the filters it returns
  the result with an empty list of files. The error is raised by its caller,
  \<open>FetchRepoNode.exec\<close>, which fails with the error "No files found" exactly when
  it was not cancelled before the crawl and the crawl returned a result whose list of
  files is empty.
\<close>

theorem empty_result_raised_by_caller:
  "fst (crawlLocalFilesAsync E dir inc exc m useRel cb incr ws (w, c)) \<noteq> Inl NoFilesFound \<and>
   (\<forall>dirNode. fs_stat dir w = Inr dirNode \<and> isDirectory dirNode \<and>
       collectFilePaths (minimatch E) (fst (loadGitignore E dir w)) inc exc dir dir
         useRel dirNode [] = Inr [] \<longrightarrow>
       fst (crawlLocalFilesAsync E dir inc exc m useRel cb incr ws (w, c)) =
         Inr \<lparr>files = [], unchanged = (if incr then Some 0 else None)\<rparr>) \<and>
   (fst (exec E preRes (w, pm)) = Inl NoFilesFound \<longleftrightarrow>
     (\<exists>pm2 result.
        isCancelled (updateStageProgress 0 pm) = (False, pm2) \<and>
        fst (crawlLocalFilesAsync E (localDir preRes) (storeIncludePatterns preRes)
               (storeExcludePatterns preRes)
               (map_option (\<lambda>kb. kb * 1024) (storeMaxFileSize preRes))
               True (Some scanCallback) False None (w, pm2)) = Inr result \<and>
        files result = []))"
  using crawl_never_NoFilesFound [of E dir inc exc m useRel cb incr ws "(w, c)"]
    crawl_no_candidates [of dir w _ E inc exc useRel m cb incr ws c]
    exec_NoFilesFound_iff [of E preRes w pm]
  by blast


theorem empty_result_raised_by_caller_witness:
  "fst (crawlLocalFilesAsync demo_env [] None None (Some 102400) True (Some scanCallback) False
          None (demo_world (Directory []) NoFile, updateStageProgress 0 demo_pm)) =
     Inr \<lparr>files = [], unchanged = None\<rparr> \<and>
   fst (exec demo_env demo_store (demo_world (Directory []) NoFile, demo_pm)) = Inl NoFilesFound"
proof -
  let ?w = "demo_world (Directory []) NoFile"
  have s: "fs_stat [] ?w = Inr (Directory [])" by (simp add: fs_stat_def demo_world_def)
  have g: "fst (loadGitignore demo_env [] ?w) = None"
    by (simp add: crawl_simps demo_world_def)
  have c: "collectFilePaths (minimatch demo_env) (fst (loadGitignore demo_env [] ?w)) None None
             [] [] True (Directory []) [] = Inr []"
    by simp
  have i: "isCancelled (updateStageProgress 0 demo_pm) = (False, updateStageProgress 0 demo_pm)"
    by (simp add: isCancelled_def updateStageProgress_def demo_pm_def setProgressObjects_def)
  note T = empty_result_raised_by_caller
    [where E = demo_env and dir = "[]" and inc = None and exc = None and m = "Some 102400"
       and useRel = True and cb = "Some scanCallback" and incr = False and ws = None
       and w = ?w and c = "updateStageProgress 0 demo_pm" and preRes = demo_store
       and pm = demo_pm]
  from T s c have 1:
    "fst (crawlLocalFilesAsync demo_env [] None None (Some 102400) True (Some scanCallback) False
            None (?w, updateStageProgress 0 demo_pm)) = Inr \<lparr>files = [], unchanged = None\<rparr>"
    by simp
  have 2: "fst (exec demo_env demo_store (?w, demo_pm)) = Inl NoFilesFound"
    using T i 1 by (simp add: demo_store_def)
  show ?thesis using 1 2 by simp
qed

text \<open>
  The claim as stated fails: on a root directory that exists and holds no file the
  crawl returns the empty result.
\<close>

theorem crawl_returns_empty_result:
  "crawlLocalFilesAsync demo_env [] None None None True None False None
      (demo_world (Directory []) NoFile, ()) =
    (Inr \<lparr>files = [], unchanged = None\<rparr>, demo_world (Directory []) NoFile, ())"
  unfolding crawl_result
  by (simp add: crawl_simps demo_world_def processBatches_Nil)

text \<open>
  Claim C7. The crawler does not descend into an excluded directory: an entry that is
  a directory and is excluded, by an ignore rule or by an exclusion glob, is skipped
  whatever it holds. Hence every directory between the root and a candidate is not
  excluded, and every file of the result of a crawl is one of the candidates, so no
  file below an excluded directory is a candidate or is in the result, whatever the
  inclusion globs say about it.
\<close>

theorem excluded_directories_are_pruned:
  assumes "crawlLocalFilesAsync E dir inc exc m useRel cb incr ws (w, c) = (Inr result, w', c')"
  shows "\<exists>dirNode pendingFiles.
           fs_stat dir w = Inr dirNode \<and>
           collectFilePaths (minimatch E) (fst (loadGitignore E dir w)) inc exc dir dir
             useRel dirNode [] = Inr pendingFiles \<and>
           (\<forall>f \<in> set pendingFiles.
              list_all
                (\<lambda>d. \<not> isExcluded (minimatch E) (fst (loadGitignore E dir w)) exc
                        (relPathOf dir useRel d))
                (ancestorDirs dir (pendingPath f))) \<and>
           (\<forall>info \<in> set (files result). \<exists>f \<in> set pendingFiles. infoPath info = relativePath f) \<and>
           (\<forall>cur item stats rest acc.
              isDirectory stats \<and>
              isExcluded (minimatch E) (fst (loadGitignore E dir w)) exc
                (relPathOf dir useRel (path_join cur item)) \<longrightarrow>
              collectItems (minimatch E) (fst (loadGitignore E dir w)) inc exc dir cur useRel
                ((item, stats) # rest) acc =
              collectItems (minimatch E) (fst (loadGitignore E dir w)) inc exc dir cur useRel
                rest acc)"
proof -
  let ?spec = "fst (loadGitignore E dir w)"
  from assms obtain dirNode where d: "fs_stat dir w = Inr dirNode" "isDirectory dirNode"
    unfolding crawl_result by (auto split: sum.splits if_splits)
  from assms d obtain pendingFiles where
    p: "collectFilePaths (minimatch E) ?spec inc exc dir dir useRel dirNode [] = Inr pendingFiles"
    unfolding crawl_result by (auto split: sum.splits)
  obtain filesList st2 c2 where
    b: "processBatches E m incr (if incr \<and> \<not> truthy ws then Some (path_basename dir) else ws)
          cb pendingFiles 0 ([], (snd (loadGitignore E dir w), 0), c) = (filesList, st2, c2)"
    by (metis prod_cases3)
  have fl: "files result = filesList"
    using assms d p b unfolding crawl_result by (auto split: prod.splits)
  have 1: "\<forall>f \<in> set pendingFiles.
              list_all (\<lambda>d. \<not> isExcluded (minimatch E) ?spec exc (relPathOf dir useRel d))
                (ancestorDirs dir (pendingPath f))"
    using collect_reached(1) [OF p] reached_ancestors by auto
  have 2: "\<forall>info \<in> set (files result). \<exists>f \<in> set pendingFiles. infoPath info = relativePath f"
    using processBatches_files [OF b] fl by simp
  have 3: "collectItems (minimatch E) ?spec inc exc dir cur useRel ((item, stats) # rest) acc =
           collectItems (minimatch E) ?spec inc exc dir cur useRel rest acc"
    if "isDirectory stats \<and> isExcluded (minimatch E) ?spec exc (relPathOf dir useRel (path_join cur item))"
    for cur item stats rest acc
    using that collectItems_skip_excluded_dir [of stats "minimatch E" ?spec exc useRel dir cur item]
    by (simp add: relPathOf_def)
  show ?thesis using d p 1 2 3 by blast
qed

theorem excluded_directories_are_pruned_witness:
  "crawlLocalFilesAsync demo_env [] (Some [''a.txt'', ''x.js'']) (Some [''node_modules'']) None
      True None False None (demo_world demo_tree NoFile, ()) =
     (Inr \<lparr>files = [\<lparr>infoPath = [''a.txt''], content = ''hello''\<rparr>], unchanged = None\<rparr>,
      (demo_world demo_tree NoFile)\<lparr>reads := [[''a.txt'']]\<rparr>, ()) \<and>
   isExcluded (minimatch demo_env) None (Some [''node_modules'']) [''node_modules''] \<and>
   isIncluded (minimatch demo_env) (Some [''a.txt'', ''x.js'']) [''node_modules'', ''x.js'']"
proof -
  let ?w = "demo_world demo_tree NoFile"
  have s: "fs_stat [] ?w = Inr demo_tree"
    by (simp add: fs_stat_def demo_world_def demo_tree_def)
  have d: "isDirectory demo_tree" by (simp add: demo_tree_def)
  have g: "loadGitignore demo_env [] ?w = (None, ?w)"
    by (simp add: crawl_simps demo_world_def demo_tree_def)
  have c: "collectFilePaths (minimatch demo_env) None (Some [''a.txt'', ''x.js''])
             (Some [''node_modules'']) [] [] True demo_tree [] =
           Inr [\<lparr>pendingPath = [''a.txt''], relativePath = [''a.txt'']\<rparr>]"
    by (simp add: demo_tree_def demo_env_def isExcluded_def isIncluded_def path_join_def
        path_relative_def Let_def)
  have t: "fileTask demo_env None False None
             \<lparr>pendingPath = [''a.txt''], relativePath = [''a.txt'']\<rparr> (?w, 0) =
           (Inr (Some \<lparr>infoPath = [''a.txt''], content = ''hello''\<rparr>),
            ?w\<lparr>reads := [[''a.txt'']]\<rparr>, 0)"
    by (simp add: crawl_simps demo_world_def demo_tree_def)
  have e: "crawlLocalFilesAsync demo_env [] (Some [''a.txt'', ''x.js'']) (Some [''node_modules''])
             None True None False None (?w, ()) =
     (Inr \<lparr>files = [\<lparr>infoPath = [''a.txt''], content = ''hello''\<rparr>], unchanged = None\<rparr>,
      ?w\<lparr>reads := [[''a.txt'']]\<rparr>, ())"
    by (simp add: crawl_result s g c d processBatches_single t callProgress_def map_filter_def)
  have x: "isExcluded (minimatch demo_env) None (Some [''node_modules'']) [''node_modules'']"
    by (simp add: isExcluded_def demo_env_def)
  have n: "isIncluded (minimatch demo_env) (Some [''a.txt'', ''x.js'']) [''node_modules'', ''x.js'']"
    by (simp add: isIncluded_def demo_env_def)
  show ?thesis
    using excluded_directories_are_pruned [OF e] e x n by blast
qed

section \<open>Properties of the progress manager\<close>




lemma reportProgress_fields [simp]:
  "currentStage (reportProgress x pm) = currentStage pm"
  "stageProgress (reportProgress x pm) = stageProgress pm"
  "totalProgress (reportProgress x pm) = totalProgress pm"
  "lastReportedProgress (reportProgress x pm) = lastReportedProgress pm"
  "token (reportProgress x pm) = token pm"
  by (simp_all add: reportProgress_def split: option.splits)





















end
